theory Spec2Isabelle
  imports Complex_Main "HOL-Library.Word"
begin

unbundle bit_operations_syntax

section \<open>The delta-at24 I2C EEPROM driver (delta\_at24.c)\<close>

text \<open>
  A shallow embedding of \<^verbatim>\<open>delta_at24.c\<close>: the geometry decode and the rest of
  \<^verbatim>\<open>at24_probe\<close>, the address translation, the two single-transfer routines with
  their retry loops, the two range loops, the sysfs write callback and the module
  initialisation. The I2C bus, the tick counter and the other kernel services the driver
  calls are parameters of the model.
\<close>

subsection \<open>Machine types and status values\<close>

type_synonym u8 = "8 word"
type_synonym u16 = "16 word"
type_synonym u32 = "32 word"
type_synonym u64 = "64 word"

text \<open>
  Modelled from the spec: the errno header is not part of the source file, and the spec
  only says that a callback returns the bytes moved or a negative error code. The codes
  the driver names are constructors; \<open>ENXIO\<close>, \<open>EIO\<close>, \<open>EAGAIN\<close> and \<open>EBUSY\<close> stand for
  what a bus primitive may report.
\<close>

datatype errno =
  ENODEV | EINVAL | EPFNOSUPPORT | ENOMEM | EADDRINUSE | ETIMEDOUT | EFBIG
  | ENXIO | EIO | EAGAIN | EBUSY

text \<open>
  A \<^verbatim>\<open>ssize_t\<close> status: \<open>Inl e\<close> is the negative value \<^verbatim>\<open>-e\<close>, \<open>Inr n\<close> the count
  \<open>n\<close>.
  A \<^verbatim>\<open>size_t\<close> count is a \<open>nat\<close>: it only ever shrinks, and it is bounded by the
  caller's buffer.
\<close>

type_synonym ssize = "errno + nat"

subsection \<open>Geometry: \<^verbatim>\<open>struct at24_platform_data\<close> and the magic values\<close>

text \<open>
  Modelled from the spec: \<^verbatim>\<open>struct at24_platform_data\<close> and the \<^verbatim>\<open>AT24_FLAG_*\<close> masks
  are declared in \<^verbatim>\<open><linux/platform_data/at24.h>\<close>, which is not part of the source
  file. The record has the three fields of the spec's DeviceGeometry that the driver
  reads (the capacity is printed with \<^verbatim>\<open>%x\<close>, so it is 32 bits wide; the flags are
  the 8 bits that \<^verbatim>\<open>AT24_SIZE_FLAGS\<close> reserves for them). The flag masks are a
  parameter \<open>F\<close> of every function that tests a flag.
\<close>

record at24_flag_bits =
  AT24_FLAG_ADDR16 :: u8
  AT24_FLAG_READONLY :: u8
  AT24_FLAG_IRUGO :: u8
  AT24_FLAG_TAKE8ADDR :: u8
  AT24_FLAG_SERIAL :: u8
  AT24_FLAG_MAC :: u8

record at24_platform_data =
  byte_len :: u32
  page_size :: u16
  flags :: u8

definition AT24_SIZE_BYTELEN :: nat where
  "AT24_SIZE_BYTELEN = 5"

definition AT24_SIZE_FLAGS :: nat where
  "AT24_SIZE_FLAGS = 8"

text \<open>
  Modelled from the spec: \<^verbatim>\<open>BIT\<close> and \<^verbatim>\<open>ilog2\<close> are kernel macros that the source
  file uses and does not define. \<open>BIT n\<close> is the unsigned long with only bit \<open>n\<close> set
  (the spec's \<open>2^n\<close>); \<open>ilog2\<close> is the base-2 logarithm rounded down.
\<close>

definition BIT :: "nat \<Rightarrow> u64" where
  "BIT n = push_bit n 1"

definition AT24_BITMASK :: "nat \<Rightarrow> u64" where
  "AT24_BITMASK x = BIT x - 1"

fun ilog2 :: "nat \<Rightarrow> nat" where
  "ilog2 n = (if n < 2 then 0 else Suc (ilog2 (n div 2)))"

declare ilog2.simps [simp del]

definition AT24_DEVICE_MAGIC :: "nat \<Rightarrow> u8 \<Rightarrow> u64" where
  "AT24_DEVICE_MAGIC len fl =
     push_bit AT24_SIZE_BYTELEN (push_bit AT24_SIZE_FLAGS 1 OR ucast fl) OR of_nat (ilog2 len)"

text \<open>The device table \<^verbatim>\<open>delta_at24_ids\<close>: name and \<^verbatim>\<open>driver_data\<close>.\<close>

definition delta_at24_ids :: "at24_flag_bits \<Rightarrow> (string \<times> u64) list" where
  "delta_at24_ids F =
    [(''24c00-delta'', AT24_DEVICE_MAGIC (128 div 8) (AT24_FLAG_TAKE8ADDR F)),
     (''24c01-delta'', AT24_DEVICE_MAGIC (1024 div 8) 0),
     (''24cs01-delta'', AT24_DEVICE_MAGIC 16 (AT24_FLAG_SERIAL F OR AT24_FLAG_READONLY F)),
     (''24c02-delta'', AT24_DEVICE_MAGIC (2048 div 8) 0),
     (''24cs02-delta'', AT24_DEVICE_MAGIC 16 (AT24_FLAG_SERIAL F OR AT24_FLAG_READONLY F)),
     (''24mac402-delta'', AT24_DEVICE_MAGIC (48 div 8) (AT24_FLAG_MAC F OR AT24_FLAG_READONLY F)),
     (''24mac602-delta'', AT24_DEVICE_MAGIC (64 div 8) (AT24_FLAG_MAC F OR AT24_FLAG_READONLY F)),
     (''spd-delta'', AT24_DEVICE_MAGIC (2048 div 8) (AT24_FLAG_READONLY F OR AT24_FLAG_IRUGO F)),
     (''24c04-delta'', AT24_DEVICE_MAGIC (4096 div 8) 0),
     (''24cs04-delta'', AT24_DEVICE_MAGIC 16 (AT24_FLAG_SERIAL F OR AT24_FLAG_READONLY F)),
     (''24c08-delta'', AT24_DEVICE_MAGIC (8192 div 8) 0),
     (''24cs08-delta'', AT24_DEVICE_MAGIC 16 (AT24_FLAG_SERIAL F OR AT24_FLAG_READONLY F)),
     (''24c16-delta'', AT24_DEVICE_MAGIC (16384 div 8) 0),
     (''24cs16-delta'', AT24_DEVICE_MAGIC 16 (AT24_FLAG_SERIAL F OR AT24_FLAG_READONLY F)),
     (''24c32-delta'', AT24_DEVICE_MAGIC (32768 div 8) (AT24_FLAG_ADDR16 F)),
     (''24cs32-delta'', AT24_DEVICE_MAGIC 16
        (AT24_FLAG_ADDR16 F OR AT24_FLAG_SERIAL F OR AT24_FLAG_READONLY F)),
     (''24c64-delta'', AT24_DEVICE_MAGIC (65536 div 8) (AT24_FLAG_ADDR16 F)),
     (''24cs64-delta'', AT24_DEVICE_MAGIC 16
        (AT24_FLAG_ADDR16 F OR AT24_FLAG_SERIAL F OR AT24_FLAG_READONLY F)),
     (''24c128-delta'', AT24_DEVICE_MAGIC (131072 div 8) (AT24_FLAG_ADDR16 F)),
     (''24c256-delta'', AT24_DEVICE_MAGIC (262144 div 8) (AT24_FLAG_ADDR16 F)),
     (''24c512-delta'', AT24_DEVICE_MAGIC (524288 div 8) (AT24_FLAG_ADDR16 F)),
     (''24c1024-delta'', AT24_DEVICE_MAGIC (1048576 div 8) (AT24_FLAG_ADDR16 F)),
     (''24c2048-delta'', AT24_DEVICE_MAGIC (2097152 div 8) (AT24_FLAG_ADDR16 F)),
     (''at24-delta'', 0)]"

text \<open>
  The masks of the kernel header, the instance at which the examples below are
  evaluated.
\<close>

definition linux_flag_bits :: at24_flag_bits where
  "linux_flag_bits =
     \<lparr>AT24_FLAG_ADDR16 = 0x80, AT24_FLAG_READONLY = 0x40, AT24_FLAG_IRUGO = 0x20,
      AT24_FLAG_TAKE8ADDR = 0x10, AT24_FLAG_SERIAL = 0x08, AT24_FLAG_MAC = 0x04\<rparr>"

subsection \<open>The device instance: \<^verbatim>\<open>struct at24_data\<close>\<close>

text \<open>An I2C client is known by its bus address (\<^verbatim>\<open>client->addr\<close>).\<close>

type_synonym i2c_client = u16

text \<open>
  \<open>use_smbus\<close> is 0 (\<open>None\<close>) or one of the transfer sizes; the three constants are
  nonzero in the kernel header.
\<close>

datatype smbus_xfer = I2C_SMBUS_BYTE_DATA | I2C_SMBUS_WORD_DATA | I2C_SMBUS_I2C_BLOCK_DATA

text \<open>
  \<open>client\<close> is the flexible array \<^verbatim>\<open>client[]\<close>, allocated with \<open>num_addresses\<close>
  entries. \<open>bin_size\<close> is \<^verbatim>\<open>bin.size\<close>, and \<open>bin_write\<close> says whether
  \<^verbatim>\<open>bin.write\<close> was set to \<^verbatim>\<open>at24_bin_write\<close>.
\<close>

record at24_data =
  chip :: at24_platform_data
  use_smbus :: "smbus_xfer option"
  write_max :: u32
  num_addresses :: u32
  client :: "i2c_client list"
  bin_size :: nat
  bin_write :: bool

text \<open>The module parameters \<^verbatim>\<open>io_limit\<close> and \<^verbatim>\<open>write_timeout\<close>.\<close>

record at24_params =
  io_limit :: u32
  write_timeout :: u32

definition default_params :: at24_params where
  "default_params = \<lparr>io_limit = 128, write_timeout = 25\<rparr>"

subsection \<open>The kernel services the driver relies on\<close>

text \<open>
  Modelled from the spec: none of these is defined in the source file.
  \<open>msecs_to_jiffies\<close> converts milliseconds to ticks of the counter \<^verbatim>\<open>jiffies\<close>;
  \<^verbatim>\<open>msleep (m)\<close> "sleeps briefly", and when it returns the counter has moved on, by
  one tick and \<open>msleep_ticks K m\<close> more; \<open>char_signed\<close> says whether plain
  \<^verbatim>\<open>char\<close> is signed for the compiler in use; \<^verbatim>\<open>I2C_SMBUS_BLOCK_MAX\<close> is the
  largest SMBus block.
\<close>

record kernel =
  msecs_to_jiffies :: "nat \<Rightarrow> nat"
  msleep_ticks :: "nat \<Rightarrow> nat"
  char_signed :: bool
  I2C_SMBUS_BLOCK_MAX :: u32

subsection \<open>Geometry decode and \<^verbatim>\<open>at24_probe\<close>\<close>

text \<open>
  What \<^verbatim>\<open>at24_probe\<close> is given: the client device with its optional platform data,
  its optional devicetree node (\<open>None\<close> also stands for a kernel built without
  \<^verbatim>\<open>CONFIG_OF\<close>, where \<^verbatim>\<open>at24_get_ofdata\<close> is empty), its address, what its adapter
  can do, and the table entry it matched.
\<close>

record of_node =
  prop_read_only :: bool
  prop_pagesize :: "u32 option"

datatype i2c_func =
  I2C_FUNC_I2C | I2C_FUNC_SMBUS_READ_I2C_BLOCK | I2C_FUNC_SMBUS_READ_WORD_DATA
  | I2C_FUNC_SMBUS_READ_BYTE_DATA | I2C_FUNC_SMBUS_WRITE_I2C_BLOCK

record i2c_dev =
  platform_data :: "at24_platform_data option"
  dev_of_node :: "of_node option"
  addr :: u16
  adapter_func :: "i2c_func list"
  driver_data :: u64

text \<open>
  The kernel services \<^verbatim>\<open>at24_probe\<close> calls, as outcomes: whether each of the two
  \<^verbatim>\<open>devm_kzalloc\<close> calls succeeds, whether \<^verbatim>\<open>i2c_new_dummy\<close> can reserve an
  address, and what \<^verbatim>\<open>sysfs_create_bin_file\<close> returns (\<open>None\<close> is 0).
\<close>

record probe_sys =
  kzalloc_at24 :: bool
  kzalloc_writebuf :: bool
  new_dummy :: "u16 \<Rightarrow> bool"
  create_bin_file :: "errno option"

definition i2c_check_functionality :: "i2c_dev \<Rightarrow> i2c_func \<Rightarrow> bool" where
  "i2c_check_functionality d f = (f \<in> set (adapter_func d))"

definition at24_get_ofdata ::
  "at24_flag_bits \<Rightarrow> of_node option \<Rightarrow> at24_platform_data \<Rightarrow> at24_platform_data" where
  "at24_get_ofdata F node c =
     (case node of
        None \<Rightarrow> c
      | Some n \<Rightarrow>
          (let c1 = (if prop_read_only n then c\<lparr>flags := flags c OR AT24_FLAG_READONLY F\<rparr> else c)
           in case prop_pagesize n of
                None \<Rightarrow> c1
              | Some v \<Rightarrow> c1\<lparr>page_size := ucast v\<rparr>))"

text \<open>
  Lines 419 to 442 of \<^verbatim>\<open>at24_probe\<close>: the geometry is the platform data when there
  is one, and is decoded from the table's magic otherwise.
\<close>

definition at24_probe_chip :: "at24_flag_bits \<Rightarrow> i2c_dev \<Rightarrow> errno + at24_platform_data" where
  "at24_probe_chip F d =
     (case platform_data d of
        Some pd \<Rightarrow> Inr pd
      | None \<Rightarrow>
          if driver_data d = 0 then Inl ENODEV
          else
            (let magic = driver_data d;
                 bl = BIT (unat (magic AND AT24_BITMASK AT24_SIZE_BYTELEN));
                 magic1 = drop_bit AT24_SIZE_BYTELEN magic;
                 fl = magic1 AND AT24_BITMASK AT24_SIZE_FLAGS;
                 c = \<lparr>byte_len = ucast bl, page_size = 1, flags = ucast fl\<rparr>
             in Inr (at24_get_ofdata F (dev_of_node d) c)))"

text \<open>
  \<^verbatim>\<open>DIV_ROUND_UP\<close> is a kernel macro that the source file uses and does not define:
  \<^verbatim>\<open>DIV_ROUND_UP(n, d)\<close> is \<^verbatim>\<open>(((n) + (d) - 1) / (d))\<close>. At its one use the dividend is
  the \<^verbatim>\<open>u32\<close> field \<^verbatim>\<open>byte_len\<close> and the divisor an \<^verbatim>\<open>int\<close> constant, so C
  evaluates the sum, the difference and the quotient as unsigned numbers of 32 bits: the
  sum wraps around at \<open>2 ^ 32\<close>.
\<close>

definition DIV_ROUND_UP :: "u32 \<Rightarrow> u32 \<Rightarrow> u32" where
  "DIV_ROUND_UP n d = (n + d - 1) div d"

text \<open>Lines 469 to 472 of \<^verbatim>\<open>at24_probe\<close>.\<close>

definition at24_num_addresses :: "at24_flag_bits \<Rightarrow> at24_platform_data \<Rightarrow> u32" where
  "at24_num_addresses F c =
     (if flags c AND AT24_FLAG_TAKE8ADDR F \<noteq> 0 then 8
      else DIV_ROUND_UP (byte_len c)
             (if flags c AND AT24_FLAG_ADDR16 F \<noteq> 0 then 65536 else 256))"

text \<open>Lines 456 to 467: the transfer mode. The last assignment overrides the chain.\<close>

definition at24_probe_smbus :: "i2c_dev \<Rightarrow> errno + smbus_xfer option" where
  "at24_probe_smbus d =
     (if \<not> i2c_check_functionality d I2C_FUNC_I2C then
        (case (if i2c_check_functionality d I2C_FUNC_SMBUS_READ_I2C_BLOCK
                 then Inr I2C_SMBUS_I2C_BLOCK_DATA
               else if i2c_check_functionality d I2C_FUNC_SMBUS_READ_WORD_DATA
                 then Inr I2C_SMBUS_WORD_DATA
               else if i2c_check_functionality d I2C_FUNC_SMBUS_READ_BYTE_DATA
                 then Inr I2C_SMBUS_BYTE_DATA
               else Inl EPFNOSUPPORT) of
           Inl e \<Rightarrow> Inl e
         | Inr m \<Rightarrow> Inr (Some I2C_SMBUS_BYTE_DATA))
      else Inr None)"

text \<open>
  The loop of lines 525 to 532: reserve a dummy client for each further address, and
  stop at the first address that is taken.
\<close>

fun at24_new_dummies :: "probe_sys \<Rightarrow> u16 \<Rightarrow> nat list \<Rightarrow> i2c_client list \<Rightarrow> i2c_client list option" where
  "at24_new_dummies S a [] cl = Some cl"
| "at24_new_dummies S a (i # is) cl =
     (if new_dummy S (a + of_nat i) then at24_new_dummies S a is (cl @ [a + of_nat i])
      else None)"

text \<open>
  \<^verbatim>\<open>at24_probe\<close>. The result is \<open>None\<close>
  where the C code has no defined behaviour: with no address at all the store to
  \<^verbatim>\<open>client[0]\<close> lies outside the allocated array. The warnings and the
  \<^verbatim>\<open>printk\<close> lines have no effect on the result.
\<close>

definition at24_probe ::
  "at24_flag_bits \<Rightarrow> kernel \<Rightarrow> at24_params \<Rightarrow> probe_sys \<Rightarrow> i2c_dev \<Rightarrow> (errno + at24_data) option" where
  "at24_probe F K P S d =
     (case at24_probe_chip F d of
        Inl e \<Rightarrow> Some (Inl e)
      | Inr c \<Rightarrow>
          if page_size c = 0 then Some (Inl EINVAL)
          else
            (case at24_probe_smbus d of
               Inl e \<Rightarrow> Some (Inl e)
             | Inr smb \<Rightarrow>
                 (let n = at24_num_addresses F c in
                  if \<not> kzalloc_at24 S then Some (Inl ENOMEM)
                  else
                    (let at24 = \<lparr>chip = c, use_smbus = smb, write_max = 0, num_addresses = n,
                                 client = [], bin_size = unat (byte_len c), bin_write = False\<rparr>;
                         writable = (flags c AND AT24_FLAG_READONLY F = 0);
                         can_write = (writable \<and>
                           (smb = None \<or> i2c_check_functionality d I2C_FUNC_SMBUS_WRITE_I2C_BLOCK));
                         wm0 = (ucast (page_size c) :: u32);
                         wm1 = (if wm0 > io_limit P then io_limit P else wm0);
                         wm2 = (if smb \<noteq> None \<and> wm1 > I2C_SMBUS_BLOCK_MAX K
                                  then I2C_SMBUS_BLOCK_MAX K else wm1);
                         at24w = (if can_write then at24\<lparr>bin_write := True, write_max := wm2\<rparr>
                                  else at24)
                     in if can_write \<and> \<not> kzalloc_writebuf S then Some (Inl ENOMEM)
                        else if n = 0 then None
                        else
                          (case at24_new_dummies S (addr d) [1..<unat n] [addr d] of
                             None \<Rightarrow> Some (Inl EADDRINUSE)
                           | Some cl \<Rightarrow>
                               (case create_bin_file S of
                                  Some e \<Rightarrow> Some (Inl e)
                                | None \<Rightarrow> Some (Inr (at24w\<lparr>client := cl\<rparr>))))))))"

subsection \<open>The bus, the tick counter and the trace\<close>

text \<open>
  The world the transfer routines run in: the tick counter \<^verbatim>\<open>jiffies\<close>, the state of
  the devices on the bus, and the trace of what the driver has done to its collaborators
  so far, oldest first.
\<close>

datatype event =
  MutexLock | MutexUnlock
  | WriteByteData i2c_client u8 u8
  | ReadByte i2c_client
  | WriteWordData i2c_client u8 u16
  | Msleep nat

record 'd world =
  jiffies :: nat
  dev :: 'd
  trace :: "event list"

text \<open>
  The three bus primitives the driver uses, as functions of the device state. Each
  returns its status (\<open>Inl e\<close> for the negative errno \<^verbatim>\<open>-e\<close>; \<open>Inr\<close> for 0, or for
  the byte read), the new device state and the ticks that went by.
\<close>

record 'd i2c_bus =
  smbus_write_byte_data :: "i2c_client \<Rightarrow> u8 \<Rightarrow> u8 \<Rightarrow> 'd \<Rightarrow> (errno + unit) \<times> 'd \<times> nat"
  smbus_read_byte :: "i2c_client \<Rightarrow> 'd \<Rightarrow> (errno + u8) \<times> 'd \<times> nat"
  smbus_write_word_data :: "i2c_client \<Rightarrow> u8 \<Rightarrow> u16 \<Rightarrow> 'd \<Rightarrow> (errno + unit) \<times> 'd \<times> nat"

definition i2c_smbus_write_byte_data ::
  "'d i2c_bus \<Rightarrow> i2c_client \<Rightarrow> u8 \<Rightarrow> u8 \<Rightarrow> 'd world \<Rightarrow> (errno + unit) \<times> 'd world" where
  "i2c_smbus_write_byte_data B c cmd v w =
     (case smbus_write_byte_data B c cmd v (dev w) of
        (st, d, t) \<Rightarrow>
          (st, w\<lparr>jiffies := jiffies w + t, dev := d,
                 trace := trace w @ [WriteByteData c cmd v]\<rparr>))"

definition i2c_smbus_read_byte ::
  "'d i2c_bus \<Rightarrow> i2c_client \<Rightarrow> 'd world \<Rightarrow> (errno + u8) \<times> 'd world" where
  "i2c_smbus_read_byte B c w =
     (case smbus_read_byte B c (dev w) of
        (st, d, t) \<Rightarrow>
          (st, w\<lparr>jiffies := jiffies w + t, dev := d, trace := trace w @ [ReadByte c]\<rparr>))"

definition i2c_smbus_write_word_data ::
  "'d i2c_bus \<Rightarrow> i2c_client \<Rightarrow> u8 \<Rightarrow> u16 \<Rightarrow> 'd world \<Rightarrow> (errno + unit) \<times> 'd world" where
  "i2c_smbus_write_word_data B c cmd v w =
     (case smbus_write_word_data B c cmd v (dev w) of
        (st, d, t) \<Rightarrow>
          (st, w\<lparr>jiffies := jiffies w + t, dev := d,
                 trace := trace w @ [WriteWordData c cmd v]\<rparr>))"

definition msleep :: "kernel \<Rightarrow> nat \<Rightarrow> 'd world \<Rightarrow> 'd world" where
  "msleep K m w =
     w\<lparr>jiffies := jiffies w + Suc (msleep_ticks K m), trace := trace w @ [Msleep m]\<rparr>"

text \<open>
  Modelled from the spec: \<^verbatim>\<open>time_before\<close> is a kernel macro that the source file uses
  and does not define; the spec has the retries bounded by the deadline. The tick
  counter is a \<open>nat\<close>, a counter that is never seen to wrap, and
  \<^verbatim>\<open>time_before (a, b)\<close> is \<open>a < b\<close>.
\<close>

definition time_before :: "nat \<Rightarrow> nat \<Rightarrow> bool" where
  "time_before a b = (a < b)"

text \<open>
  One task runs at a time in this model, so the lock is always free when it is asked
  for; taking and releasing it are recorded in the trace.
\<close>

definition mutex_lock :: "'d world \<Rightarrow> 'd world" where
  "mutex_lock w = w\<lparr>trace := trace w @ [MutexLock]\<rparr>"

definition mutex_unlock :: "'d world \<Rightarrow> 'd world" where
  "mutex_unlock w = w\<lparr>trace := trace w @ [MutexUnlock]\<rparr>"

subsection \<open>\<^verbatim>\<open>at24_translate_offset\<close>\<close>

text \<open>
  \<^verbatim>\<open>at24->client[i]\<close>: \<open>None\<close> when \<open>i\<close> is outside the array, where the C code reads
  whatever lies behind it.
\<close>

definition at24_client :: "at24_data \<Rightarrow> u32 \<Rightarrow> i2c_client option" where
  "at24_client at24 i =
     (if unat i < length (client at24) then Some (client at24 ! unat i) else None)"

text \<open>The result is the client and the new value of \<^verbatim>\<open>*offset\<close>.\<close>

definition at24_translate_offset ::
  "at24_flag_bits \<Rightarrow> at24_data \<Rightarrow> u32 \<Rightarrow> i2c_client option \<times> u32" where
  "at24_translate_offset F at24 offset =
     (if flags (chip at24) AND AT24_FLAG_ADDR16 F \<noteq> 0 then
        (let i = drop_bit 16 offset in (at24_client at24 i, offset AND 0xffff))
      else
        (let i = drop_bit 8 offset in (at24_client at24 i, offset AND 0xff)))"

text \<open>The tick counter never goes back, and \<^verbatim>\<open>msleep\<close> moves it on.\<close>

lemma jiffies_write_byte_data:
  "i2c_smbus_write_byte_data B c a b w = (st, w1) \<Longrightarrow> jiffies w \<le> jiffies w1"
  by (auto simp: i2c_smbus_write_byte_data_def split: prod.splits)

lemma jiffies_read_byte:
  "i2c_smbus_read_byte B c w = (st, w1) \<Longrightarrow> jiffies w \<le> jiffies w1"
  by (auto simp: i2c_smbus_read_byte_def split: prod.splits)

lemma jiffies_write_word_data:
  "i2c_smbus_write_word_data B c a b w = (st, w1) \<Longrightarrow> jiffies w \<le> jiffies w1"
  by (auto simp: i2c_smbus_write_word_data_def split: prod.splits)

lemma jiffies_msleep: "jiffies w < jiffies (msleep K m w)"
  by (simp add: msleep_def)

lemma read_iter_progress:
  "(st0, w1) = i2c_smbus_write_byte_data B c a b w \<Longrightarrow> (st, w2) = i2c_smbus_read_byte B c w1
   \<Longrightarrow> jiffies w < jiffies (msleep K m w2)"
  using jiffies_write_byte_data [of B c a b w st0 w1] jiffies_read_byte [of B c w1 st w2]
    jiffies_msleep [of w2 K m]
  by simp

lemma write_iter_progress:
  "(st, w1) = i2c_smbus_write_word_data B c a b w \<Longrightarrow> jiffies w < jiffies (msleep K m w1)"
  using jiffies_write_word_data [of B c a b w st w1] jiffies_msleep [of w1 K m]
  by simp

subsection \<open>\<^verbatim>\<open>at24_eeprom_read\<close>\<close>

text \<open>
  The \<^verbatim>\<open>do ... while\<close> loop of \<^verbatim>\<open>at24_eeprom_read\<close>. The status of
  \<^verbatim>\<open>i2c_smbus_write_byte_data\<close> is overwritten by that of
  \<^verbatim>\<open>i2c_smbus_read_byte\<close> before it is looked at. \<open>buf\<close> is the caller's buffer and
  \<open>pos\<close> the index in it that the C pointer \<^verbatim>\<open>buf\<close> points to; a store outside the
  buffer is \<open>None\<close>.
\<close>

function at24_eeprom_read_loop ::
  "kernel \<Rightarrow> 'd i2c_bus \<Rightarrow> i2c_client \<Rightarrow> u32 \<Rightarrow> nat \<Rightarrow> nat \<Rightarrow> u8 list \<Rightarrow> nat \<Rightarrow> 'd world
   \<Rightarrow> (ssize \<times> u8 list \<times> 'd world) option" where
  "at24_eeprom_read_loop K B c offset count timeout buf pos w =
     (let read_time = jiffies w in
      case i2c_smbus_write_byte_data B c (ucast (drop_bit 8 offset AND 0xff))
             (ucast (offset AND 0xff)) w of
        (st0, w1) \<Rightarrow>
          (case i2c_smbus_read_byte B c w1 of
             (Inr b, w2) \<Rightarrow>
               if pos < length buf then Some (Inr count, buf[pos := b], w2) else None
           | (Inl e, w2) \<Rightarrow>
               (let w3 = msleep K 1 w2 in
                if time_before read_time timeout
                then at24_eeprom_read_loop K B c offset count timeout buf pos w3
                else Some (Inl ETIMEDOUT, buf, w3))))"
  by pat_completeness auto

termination at24_eeprom_read_loop
  apply (relation "measure (\<lambda>(K, B, c, offset, count, timeout, buf, pos, w). timeout - jiffies w)")
   apply simp
  apply (simp add: time_before_def)
  subgoal premises p for K B c offset timeout w x xa y xaa ya a xab
  proof -
    have "jiffies w < jiffies (msleep K (Suc 0) ya)"
      by (rule read_iter_progress [OF p(2) p(3)])
    with p(6) show ?thesis by simp
  qed
  done

declare at24_eeprom_read_loop.simps [simp del]

text \<open>
  \<^verbatim>\<open>at24_eeprom_read\<close>: \<open>offset\<close> is the \<^verbatim>\<open>unsigned\<close> parameter, \<open>count\<close> the
  \<^verbatim>\<open>size_t\<close> one. \<open>count\<close> is clamped to \<open>io_limit\<close> and then set to 1.
\<close>

definition at24_eeprom_read ::
  "at24_flag_bits \<Rightarrow> kernel \<Rightarrow> 'd i2c_bus \<Rightarrow> at24_params \<Rightarrow> at24_data \<Rightarrow> u8 list \<Rightarrow> nat \<Rightarrow> u32
   \<Rightarrow> nat \<Rightarrow> 'd world \<Rightarrow> (ssize \<times> u8 list \<times> 'd world) option" where
  "at24_eeprom_read F K B P at24 buf pos offset count w =
     (case at24_translate_offset F at24 offset of
        (None, offset1) \<Rightarrow> None
      | (Some c, offset1) \<Rightarrow>
          (let count1 = (if count > unat (io_limit P) then unat (io_limit P) else count);
               count2 = 1;
               timeout = jiffies w + msecs_to_jiffies K (unat (write_timeout P))
           in at24_eeprom_read_loop K B c offset1 count2 timeout buf pos w))"

subsection \<open>\<^verbatim>\<open>at24_read\<close>\<close>

text \<open>
  The \<^verbatim>\<open>while (count)\<close> loop of \<^verbatim>\<open>at24_read\<close>. \<open>off\<close> is the \<^verbatim>\<open>loff_t\<close>, cut
  to 32 bits where it is passed on; \<open>retval\<close> is only ever a count inside the loop.
  The branch \<^verbatim>\<open>status <= 0\<close> is the two cases \<open>Inl e\<close> and \<open>Inr 0\<close>.
\<close>

function at24_read_loop ::
  "at24_flag_bits \<Rightarrow> kernel \<Rightarrow> 'd i2c_bus \<Rightarrow> at24_params \<Rightarrow> at24_data \<Rightarrow> u8 list \<Rightarrow> nat \<Rightarrow> u64
   \<Rightarrow> nat \<Rightarrow> nat \<Rightarrow> 'd world \<Rightarrow> (ssize \<times> u8 list \<times> 'd world) option" where
  "at24_read_loop F K B P at24 buf pos off count retval w =
     (if count = 0 then Some (Inr retval, buf, w)
      else
        (case at24_eeprom_read F K B P at24 buf pos (ucast off) count w of
           None \<Rightarrow> None
         | Some (Inl e, buf1, w1) \<Rightarrow> Some (if retval = 0 then Inl e else Inr retval, buf1, w1)
         | Some (Inr n, buf1, w1) \<Rightarrow>
             if n = 0 then Some (Inr retval, buf1, w1)
             else at24_read_loop F K B P at24 buf1 (pos + n) (off + of_nat n) (count - n)
                    (retval + n) w1))"
  by pat_completeness auto
termination
  by (relation "measure (\<lambda>(F, K, B, P, at24, buf, pos, off, count, retval, w). count)") auto

declare at24_read_loop.simps [simp del]

text \<open>
  \<^verbatim>\<open>at24_read\<close>: the buffer is cleared over \<open>count\<close> bytes first (\<open>None\<close> when it
  is shorter than that), then the loop runs under the lock.
\<close>

definition at24_read ::
  "at24_flag_bits \<Rightarrow> kernel \<Rightarrow> 'd i2c_bus \<Rightarrow> at24_params \<Rightarrow> at24_data \<Rightarrow> u8 list \<Rightarrow> u64 \<Rightarrow> nat
   \<Rightarrow> 'd world \<Rightarrow> (ssize \<times> u8 list \<times> 'd world) option" where
  "at24_read F K B P at24 buf off count w =
     (if count = 0 then Some (Inr count, buf, w)
      else if length buf < count then None
      else
        (let buf0 = replicate count 0 @ drop count buf;
             w0 = mutex_lock w
         in case at24_read_loop F K B P at24 buf0 0 off count 0 w0 of
              None \<Rightarrow> None
            | Some (retval, buf1, w1) \<Rightarrow> Some (retval, buf1, mutex_unlock w1)))"

definition at24_bin_read ::
  "at24_flag_bits \<Rightarrow> kernel \<Rightarrow> 'd i2c_bus \<Rightarrow> at24_params \<Rightarrow> at24_data \<Rightarrow> u8 list \<Rightarrow> u64 \<Rightarrow> nat
   \<Rightarrow> 'd world \<Rightarrow> (ssize \<times> u8 list \<times> 'd world) option" where
  "at24_bin_read F K B P at24 buf off count w = at24_read F K B P at24 buf off count w"

subsection \<open>\<^verbatim>\<open>at24_eeprom_write\<close>\<close>

text \<open>
  Modelled from the spec: \<^verbatim>\<open>roundup\<close> is a kernel macro that the source file uses
  and does not define; the spec's \<open>round_up (x, y)\<close> is the least multiple of \<open>y\<close> at
  or above \<open>x\<close>.
\<close>

definition roundup :: "nat \<Rightarrow> nat \<Rightarrow> nat" where
  "roundup x y = ((x + (y - 1)) div y) * y"

text \<open>
  The value \<^verbatim>\<open>buf[0]\<close> has in the expression \<^verbatim>\<open>(offset & 0xFF) | buf[0]\<close>, where
  a \<^verbatim>\<open>char\<close> is promoted to \<^verbatim>\<open>int\<close> and then converted to \<^verbatim>\<open>unsigned\<close>.
\<close>

definition char_promote :: "kernel \<Rightarrow> u8 \<Rightarrow> u32" where
  "char_promote K b = (if char_signed K then scast b else ucast b)"

text \<open>
  The \<^verbatim>\<open>do ... while\<close> loop of \<^verbatim>\<open>at24_eeprom_write\<close>. The third argument of
  \<^verbatim>\<open>i2c_smbus_write_word_data\<close> is a \<^verbatim>\<open>u16\<close>, so the value is cut to 16 bits.
  Reading \<^verbatim>\<open>buf[0]\<close> outside the buffer is \<open>None\<close>.
\<close>

function at24_eeprom_write_loop ::
  "kernel \<Rightarrow> 'd i2c_bus \<Rightarrow> i2c_client \<Rightarrow> u32 \<Rightarrow> nat \<Rightarrow> nat \<Rightarrow> u8 list \<Rightarrow> nat \<Rightarrow> 'd world
   \<Rightarrow> (ssize \<times> 'd world) option" where
  "at24_eeprom_write_loop K B c offset count timeout buf pos w =
     (let write_time = jiffies w in
      if \<not> pos < length buf then None
      else
        (case i2c_smbus_write_word_data B c (ucast (drop_bit 8 offset AND 0xff))
                (ucast ((offset AND 0xFF) OR char_promote K (buf ! pos))) w of
           (Inr u, w1) \<Rightarrow> Some (Inr count, w1)
         | (Inl e, w1) \<Rightarrow>
             (let w2 = msleep K 1 w1 in
              if time_before write_time timeout
              then at24_eeprom_write_loop K B c offset count timeout buf pos w2
              else Some (Inl ETIMEDOUT, w2))))"
  by pat_completeness auto

termination at24_eeprom_write_loop
  apply (relation "measure (\<lambda>(K, B, c, offset, count, timeout, buf, pos, w). timeout - jiffies w)")
   apply simp
  apply (simp add: time_before_def)
  subgoal premises p for K B c offset timeout buf pos w x xa y a xaa
  proof -
    have "jiffies w < jiffies (msleep K (Suc 0) y)"
      by (rule write_iter_progress [OF p(3)])
    with p(6) show ?thesis by simp
  qed
  done

declare at24_eeprom_write_loop.simps [simp del]

text \<open>
  \<^verbatim>\<open>at24_eeprom_write\<close>. \<open>count\<close> is first clamped to \<open>write_max\<close>, then cut at
  \<open>next_page\<close>. A page size of 0, which \<^verbatim>\<open>at24_probe\<close> refuses, has nothing to be
  rounded up to: \<open>None\<close>.
\<close>

definition at24_eeprom_write ::
  "at24_flag_bits \<Rightarrow> kernel \<Rightarrow> 'd i2c_bus \<Rightarrow> at24_params \<Rightarrow> at24_data \<Rightarrow> u8 list \<Rightarrow> nat \<Rightarrow> u32
   \<Rightarrow> nat \<Rightarrow> 'd world \<Rightarrow> (ssize \<times> 'd world) option" where
  "at24_eeprom_write F K B P at24 buf pos offset count w =
     (case at24_translate_offset F at24 offset of
        (None, offset1) \<Rightarrow> None
      | (Some c, offset1) \<Rightarrow>
          if page_size (chip at24) = 0 then None
          else
            (let count1 = (if count > unat (write_max at24) then unat (write_max at24) else count);
                 next_page = (of_nat (roundup (unat (offset1 + 1)) (unat (page_size (chip at24)))) :: u32);
                 count2 = (if unat offset1 + count1 > unat next_page
                           then unat (next_page - offset1) else count1);
                 timeout = jiffies w + msecs_to_jiffies K (unat (write_timeout P))
             in at24_eeprom_write_loop K B c offset1 count2 timeout buf pos w))"

subsection \<open>\<^verbatim>\<open>at24_write\<close> and \<^verbatim>\<open>at24_bin_write\<close>\<close>

text \<open>
  The \<^verbatim>\<open>while (count)\<close> loop of \<^verbatim>\<open>at24_write\<close>: each call of
  \<^verbatim>\<open>at24_eeprom_write\<close> is given the count 1.
\<close>

function at24_write_loop ::
  "at24_flag_bits \<Rightarrow> kernel \<Rightarrow> 'd i2c_bus \<Rightarrow> at24_params \<Rightarrow> at24_data \<Rightarrow> u8 list \<Rightarrow> nat \<Rightarrow> u64
   \<Rightarrow> nat \<Rightarrow> nat \<Rightarrow> 'd world \<Rightarrow> (ssize \<times> 'd world) option" where
  "at24_write_loop F K B P at24 buf pos off count retval w =
     (if count = 0 then Some (Inr retval, w)
      else
        (case at24_eeprom_write F K B P at24 buf pos (ucast off) 1 w of
           None \<Rightarrow> None
         | Some (Inl e, w1) \<Rightarrow> Some (if retval = 0 then Inl e else Inr retval, w1)
         | Some (Inr n, w1) \<Rightarrow>
             if n = 0 then Some (Inr retval, w1)
             else at24_write_loop F K B P at24 buf (pos + n) (off + of_nat n) (count - n)
                    (retval + n) w1))"
  by pat_completeness auto
termination
  by (relation "measure (\<lambda>(F, K, B, P, at24, buf, pos, off, count, retval, w). count)") auto

declare at24_write_loop.simps [simp del]

definition at24_write ::
  "at24_flag_bits \<Rightarrow> kernel \<Rightarrow> 'd i2c_bus \<Rightarrow> at24_params \<Rightarrow> at24_data \<Rightarrow> u8 list \<Rightarrow> u64 \<Rightarrow> nat
   \<Rightarrow> 'd world \<Rightarrow> (ssize \<times> 'd world) option" where
  "at24_write F K B P at24 buf off count w =
     (if count = 0 then Some (Inr count, w)
      else
        (let w0 = mutex_lock w
         in case at24_write_loop F K B P at24 buf 0 off count 0 w0 of
              None \<Rightarrow> None
            | Some (retval, w1) \<Rightarrow> Some (retval, mutex_unlock w1)))"

text \<open>
  \<^verbatim>\<open>at24_bin_write\<close>: \<^verbatim>\<open>attr->size\<close> is \<open>bin_size\<close>, and the \<^verbatim>\<open>loff_t\<close> is
  compared with it as an unsigned value.
\<close>

definition at24_bin_write ::
  "at24_flag_bits \<Rightarrow> kernel \<Rightarrow> 'd i2c_bus \<Rightarrow> at24_params \<Rightarrow> at24_data \<Rightarrow> u8 list \<Rightarrow> u64 \<Rightarrow> nat
   \<Rightarrow> 'd world \<Rightarrow> (ssize \<times> 'd world) option" where
  "at24_bin_write F K B P at24 buf off count w =
     (if unat off \<ge> bin_size at24 then Some (Inl EFBIG, w)
      else at24_write F K B P at24 buf off count w)"

subsection \<open>\<^verbatim>\<open>delta_at24_init\<close>\<close>

text \<open>
  Modelled from the spec: \<^verbatim>\<open>rounddown_pow_of_two\<close> is a kernel macro that the source
  file uses and does not define; the spec has it give the nearest lower power of two.
\<close>

definition rounddown_pow_of_two :: "u32 \<Rightarrow> u32" where
  "rounddown_pow_of_two n = 2 ^ ilog2 (unat n)"

text \<open>
  \<^verbatim>\<open>delta_at24_init\<close>: the result is the status (\<open>None\<close> is 0) and the module
  parameters as the function leaves them. \<open>i2c_add_driver\<close> is the kernel's
  registration of the driver, after which devices are probed; it is given the parameters
  as they are when it is called.
\<close>

definition delta_at24_init ::
  "(at24_params \<Rightarrow> errno option) \<Rightarrow> at24_params \<Rightarrow> errno option \<times> at24_params" where
  "delta_at24_init i2c_add_driver P =
     (if io_limit P = 0 then (Some EINVAL, P)
      else
        (let P1 = P\<lparr>io_limit := rounddown_pow_of_two (io_limit P)\<rparr>
         in (i2c_add_driver P1, P1)))"

subsection \<open>The iterations of the range loops\<close>

text \<open>
  The state in which the loop of \<^verbatim>\<open>at24_read\<close> starts its iteration number \<open>k\<close>
  (counted from 0), when there is one: the buffer, the number of bytes moved so far and
  the world, after the buffer was cleared, the lock taken and \<open>k\<close> transfers have each
  moved at least one byte. \<open>at24_write_after\<close> is the same for \<^verbatim>\<open>at24_write\<close>.
\<close>

fun at24_read_after ::
  "at24_flag_bits \<Rightarrow> kernel \<Rightarrow> 'd i2c_bus \<Rightarrow> at24_params \<Rightarrow> at24_data \<Rightarrow> u8 list \<Rightarrow> u64 \<Rightarrow> nat
   \<Rightarrow> 'd world \<Rightarrow> nat \<Rightarrow> (u8 list \<times> nat \<times> 'd world) option" where
  "at24_read_after F K B P at24 buf off count w 0 =
     Some (replicate count 0 @ drop count buf, 0, mutex_lock w)"
| "at24_read_after F K B P at24 buf off count w (Suc k) =
     (case at24_read_after F K B P at24 buf off count w k of
        None \<Rightarrow> None
      | Some (b, pos, w1) \<Rightarrow>
          if pos < count then
            (case at24_eeprom_read F K B P at24 b pos (ucast (off + of_nat pos)) (count - pos) w1 of
               Some (Inr n, b1, w2) \<Rightarrow> if n = 0 then None else Some (b1, pos + n, w2)
             | _ \<Rightarrow> None)
          else None)"

fun at24_write_after ::
  "at24_flag_bits \<Rightarrow> kernel \<Rightarrow> 'd i2c_bus \<Rightarrow> at24_params \<Rightarrow> at24_data \<Rightarrow> u8 list \<Rightarrow> u64 \<Rightarrow> nat
   \<Rightarrow> 'd world \<Rightarrow> nat \<Rightarrow> (nat \<times> 'd world) option" where
  "at24_write_after F K B P at24 buf off count w 0 = Some (0, mutex_lock w)"
| "at24_write_after F K B P at24 buf off count w (Suc k) =
     (case at24_write_after F K B P at24 buf off count w k of
        None \<Rightarrow> None
      | Some (pos, w1) \<Rightarrow>
          if pos < count then
            (case at24_eeprom_write F K B P at24 buf pos (ucast (off + of_nat pos)) 1 w1 of
               Some (Inr n, w2) \<Rightarrow> if n = 0 then None else Some (pos + n, w2)
             | _ \<Rightarrow> None)
          else None)"

subsection \<open>Instances for the examples\<close>

text \<open>
  The inputs at which the examples below are evaluated: a kernel with one tick per
  millisecond and a signed \<^verbatim>\<open>char\<close>, a system in which every allocation and
  registration succeeds, and a client at address 0x50 on an adapter with full I2C.
\<close>

definition test_kernel :: kernel where
  "test_kernel =
     \<lparr>msecs_to_jiffies = (\<lambda>m. m), msleep_ticks = (\<lambda>m. m), char_signed = True,
      I2C_SMBUS_BLOCK_MAX = 32\<rparr>"

definition test_sys :: probe_sys where
  "test_sys =
     \<lparr>kzalloc_at24 = True, kzalloc_writebuf = True, new_dummy = (\<lambda>a. True),
      create_bin_file = None\<rparr>"

definition test_dev :: "at24_platform_data option \<Rightarrow> of_node option \<Rightarrow> u64 \<Rightarrow> i2c_dev" where
  "test_dev pd node magic =
     \<lparr>platform_data = pd, dev_of_node = node, addr = 0x50, adapter_func = [I2C_FUNC_I2C],
      driver_data = magic\<rparr>"

text \<open>
  A reference device for the examples: an EEPROM with 16-bit addresses behind one bus
  address. The first byte after the bus address is the high byte of the memory address,
  the second its low byte, a third is stored at that address; a read returns the byte
  at the address pointer. The device accepts its next \<open>ready_ops\<close> transactions,
  then rejects the \<open>busy_ops\<close> after those, then accepts all.
\<close>

record eeprom =
  cells :: "u16 \<Rightarrow> u8"
  cursor :: u16
  ready_ops :: nat
  busy_ops :: nat

definition eeprom_ready :: "eeprom \<Rightarrow> bool \<times> eeprom" where
  "eeprom_ready e =
     (if 0 < ready_ops e then (True, e\<lparr>ready_ops := ready_ops e - 1\<rparr>)
      else if 0 < busy_ops e then (False, e\<lparr>busy_ops := busy_ops e - 1\<rparr>)
      else (True, e))"

definition eeprom_bus :: "eeprom i2c_bus" where
  "eeprom_bus =
     \<lparr>smbus_write_byte_data = (\<lambda>c cmd v e.
        case eeprom_ready e of
          (False, e1) \<Rightarrow> (Inl ENXIO, e1, 0)
        | (True, e1) \<Rightarrow> (Inr (), e1\<lparr>cursor := push_bit 8 (ucast cmd) OR ucast v\<rparr>, 0)),
      smbus_read_byte = (\<lambda>c e.
        case eeprom_ready e of
          (False, e1) \<Rightarrow> (Inl ENXIO, e1, 0)
        | (True, e1) \<Rightarrow> (Inr (cells e1 (cursor e1)), e1\<lparr>cursor := cursor e1 + 1\<rparr>, 0)),
      smbus_write_word_data = (\<lambda>c cmd v e.
        case eeprom_ready e of
          (False, e1) \<Rightarrow> (Inl ENXIO, e1, 0)
        | (True, e1) \<Rightarrow>
            (let a = push_bit 8 (ucast cmd) OR ucast (v AND 0xff)
             in (Inr (), e1\<lparr>cells := (cells e1)(a := ucast (drop_bit 8 v)), cursor := a + 1\<rparr>, 0)))\<rparr>"

definition fresh_world :: "nat \<Rightarrow> nat \<Rightarrow> eeprom world" where
  "fresh_world r b =
     \<lparr>jiffies = 0, dev = \<lparr>cells = (\<lambda>a. 0xff), cursor = 0, ready_ops = r, busy_ops = b\<rparr>,
      trace = []\<rparr>"

text \<open>The same device with each cell holding the low byte of its own address.\<close>

definition indexed_world :: "nat \<Rightarrow> nat \<Rightarrow> eeprom world" where
  "indexed_world r b =
     \<lparr>jiffies = 0, dev = \<lparr>cells = ucast, cursor = 0, ready_ops = r, busy_ops = b\<rparr>,
      trace = []\<rparr>"

definition test_params :: at24_params where
  "test_params = \<lparr>io_limit = 128, write_timeout = 3\<rparr>"

text \<open>
  Device instances, each as \<^verbatim>\<open>at24_probe\<close> constructs it: a 24c128 described by
  platform data with its pages of 64 bytes, the table's 24c04 and 24c00, and a geometry
  with TAKE8ADDR and 4096 bytes.
\<close>

definition at24_24c128 :: at24_data where
  "at24_24c128 =
     \<lparr>chip = \<lparr>byte_len = 16384, page_size = 64, flags = 0x80\<rparr>, use_smbus = None,
      write_max = 64, num_addresses = 1, client = [0x50], bin_size = 16384, bin_write = True\<rparr>"

definition at24_24c04 :: at24_data where
  "at24_24c04 =
     \<lparr>chip = \<lparr>byte_len = 512, page_size = 1, flags = 0\<rparr>, use_smbus = None, write_max = 1,
      num_addresses = 2, client = [0x50, 0x51], bin_size = 512, bin_write = True\<rparr>"

definition at24_24c00 :: at24_data where
  "at24_24c00 =
     \<lparr>chip = \<lparr>byte_len = 16, page_size = 1, flags = 0x10\<rparr>, use_smbus = None, write_max = 1,
      num_addresses = 8, client = [0x50, 0x51, 0x52, 0x53, 0x54, 0x55, 0x56, 0x57],
      bin_size = 16, bin_write = True\<rparr>"

definition at24_take8 :: at24_data where
  "at24_take8 =
     \<lparr>chip = \<lparr>byte_len = 4096, page_size = 16, flags = 0x10\<rparr>, use_smbus = None,
      write_max = 16, num_addresses = 8,
      client = [0x50, 0x51, 0x52, 0x53, 0x54, 0x55, 0x56, 0x57], bin_size = 4096,
      bin_write = True\<rparr>"

text \<open>
  Two geometries that platform data can give, both with 8-bit addresses: \<open>2 ^ 32 - 1\<close>
  bytes, and \<open>2 ^ 32 - 256\<close> bytes, the largest capacity for which \<open>byte_len + 256\<close>
  does not exceed \<open>2 ^ 32\<close>.
\<close>

definition chip_4g :: at24_platform_data where
  "chip_4g = \<lparr>byte_len = 0xFFFFFFFF, page_size = 1, flags = 0\<rparr>"

definition chip_4g_fits :: at24_platform_data where
  "chip_4g_fits = \<lparr>byte_len = 0xFFFFFF00, page_size = 1, flags = 0\<rparr>"

section \<open>Properties\<close>

subsection \<open>Arithmetic of the geometry\<close>

lemma new_dummies_length:
  "at24_new_dummies S a is cl = Some cl' \<Longrightarrow> length cl' = length cl + length is"
  by (induction "is" arbitrary: cl) (auto split: if_splits)

lemma ceil_div_cover:
  assumes "0 < (d::nat)"
  shows "n \<le> (n + d - 1) div d * d \<and> (n + d - 1) div d * d < n + d"
proof -
  let ?m = "n + d - 1"
  have "?m div d * d + ?m mod d = ?m" by (rule div_mult_mod_eq)
  moreover have "?m mod d < d" using assms by simp
  ultimately show ?thesis using assms by linarith
qed

lemma ceil_div_pos: "0 < (d::nat) \<Longrightarrow> 0 < n \<Longrightarrow> 0 < (n + d - 1) div d"
  using ceil_div_cover [of d n] by (cases "(n + d - 1) div d") auto

lemma ceil_div_ceiling:
  assumes "0 < (d::nat)"
  shows "int ((n + d - 1) div d) = \<lceil>real n / real d\<rceil>"
proof -
  let ?q = "(n + d - 1) div d"
  from ceil_div_cover [OF assms, of n]
  have a: "n \<le> ?q * d" and b: "?q * d < n + d" by simp_all
  have "real n / real d \<le> real ?q"
    using a assms by (simp add: divide_le_eq flip: of_nat_mult)
  moreover have "real ?q - 1 < real n / real d"
    using b assms by (simp add: less_divide_eq algebra_simps flip: of_nat_mult of_nat_add)
  ultimately have "\<lceil>real n / real d\<rceil> = int ?q"
    by (intro ceiling_unique) simp_all
  then show ?thesis by simp
qed

lemma unat_and_ffff: "unat ((x::u32) AND 0xffff) = unat x mod 65536"
proof -
  have "(0xffff::u32) = mask 16" by (simp add: mask_eq_exp_minus_1)
  then have "x AND 0xffff = take_bit 16 x" by (simp add: take_bit_eq_mask)
  then show ?thesis by (simp add: unsigned_take_bit_eq take_bit_eq_mod unat_mod)
qed

lemma unat_and_ff: "unat ((x::u32) AND 0xff) = unat x mod 256"
proof -
  have "(0xff::u32) = mask 8" by (simp add: mask_eq_exp_minus_1)
  then have "x AND 0xff = take_bit 8 x" by (simp add: take_bit_eq_mask)
  then show ?thesis by (simp add: unsigned_take_bit_eq take_bit_eq_mod unat_mod)
qed

lemma unat_drop_bit_16: "unat (drop_bit 16 (x::u32)) = unat x div 65536"
  by (simp add: unat_drop_bit_eq drop_bit_eq_div unat_div)

lemma unat_drop_bit_8: "unat (drop_bit 8 (x::u32)) = unat x div 256"
  by (simp add: unat_drop_bit_eq drop_bit_eq_div unat_div)

lemma unat_u32_bound: "unat (x::u32) < 4294967296"
  using unsigned_less [of x, where 'a = nat] by simp

text \<open>
  The sum of \<^verbatim>\<open>DIV_ROUND_UP\<close> as a number: it is the sum of the two numbers where
  that is below \<open>2 ^ 32\<close>, and then the macro is the rounded-up quotient; where the sum
  wraps, what is left is below the divisor and the macro is 0.
\<close>

lemma unat_round_up_sum:
  assumes "d \<noteq> 0"
  shows "unat ((n::u32) + d - 1) = (unat n + (unat d - 1)) mod 4294967296"
proof -
  have e: "n + d - 1 = n + (d - 1)" by simp
  have m: "unat (d - 1) = unat d - 1" using assms by (simp add: unat_minus_one)
  have "unat (n + (d - 1)) = (unat n + unat (d - 1)) mod 2 ^ LENGTH(32)"
    by (rule unat_word_ariths)
  then show ?thesis unfolding e m by simp
qed

lemma DIV_ROUND_UP_fits:
  assumes d: "d \<noteq> 0" and fits: "unat n + unat d \<le> 4294967296"
  shows "unat (DIV_ROUND_UP n d) = (unat n + unat d - 1) div unat d"
proof -
  from d have d0: "0 < unat d" by (simp add: unat_gt_0)
  with fits have "unat n + (unat d - 1) < 4294967296" by simp
  then have "unat (n + d - 1) = unat n + (unat d - 1)"
    by (simp add: unat_round_up_sum [OF d])
  with d0 show ?thesis by (simp add: DIV_ROUND_UP_def unat_div)
qed

lemma DIV_ROUND_UP_wraps:
  assumes d: "d \<noteq> 0" and wraps: "4294967296 < unat n + unat d"
  shows "DIV_ROUND_UP n d = 0"
proof -
  let ?s = "unat n + (unat d - 1)"
  from wraps have ge: "4294967296 \<le> ?s" by simp
  have lt: "?s < 4294967296 + (unat d - 1)" using unat_u32_bound [of n] by simp
  from ge have "?s mod 4294967296 = (?s - 4294967296) mod 4294967296"
    by (simp add: le_mod_geq)
  also have "\<dots> = ?s - 4294967296"
    using lt unat_u32_bound [of d] by simp
  finally have "unat (n + d - 1) < unat d"
    using lt ge by (simp add: unat_round_up_sum [OF d])
  then have "unat (DIV_ROUND_UP n d) = 0" by (simp add: DIV_ROUND_UP_def unat_div)
  then show ?thesis by (simp add: unat_eq_zero)
qed

text \<open>
  The number of addresses of a geometry without TAKE8ADDR, on both sides of the
  wrap-around: with \<open>span\<close> the bytes behind one address, it is the rounded-up quotient
  when \<open>byte_len + span\<close> is at most \<open>2 ^ 32\<close>, and 0 beyond.
\<close>

lemma unat_num_addresses:
  assumes "flags c AND AT24_FLAG_TAKE8ADDR F = 0"
    and "unat (byte_len c) + (if flags c AND AT24_FLAG_ADDR16 F \<noteq> 0 then 65536 else 256)
           \<le> 4294967296"
  shows "unat (at24_num_addresses F c) =
     (unat (byte_len c) + (if flags c AND AT24_FLAG_ADDR16 F \<noteq> 0 then 65536 else 256) - 1) div
       (if flags c AND AT24_FLAG_ADDR16 F \<noteq> 0 then 65536 else 256)"
proof (cases "flags c AND AT24_FLAG_ADDR16 F \<noteq> 0")
  case True
  with assms DIV_ROUND_UP_fits [of 65536 "byte_len c"] show ?thesis
    by (simp add: at24_num_addresses_def)
next
  case False
  with assms DIV_ROUND_UP_fits [of 256 "byte_len c"] show ?thesis
    by (simp add: at24_num_addresses_def)
qed

lemma num_addresses_wraps:
  assumes "flags c AND AT24_FLAG_TAKE8ADDR F = 0"
    and "4294967296 <
           unat (byte_len c) + (if flags c AND AT24_FLAG_ADDR16 F \<noteq> 0 then 65536 else 256)"
  shows "at24_num_addresses F c = 0"
proof (cases "flags c AND AT24_FLAG_ADDR16 F \<noteq> 0")
  case True
  with assms DIV_ROUND_UP_wraps [of 65536 "byte_len c"] show ?thesis
    by (simp add: at24_num_addresses_def)
next
  case False
  with assms DIV_ROUND_UP_wraps [of 256 "byte_len c"] show ?thesis
    by (simp add: at24_num_addresses_def)
qed

lemma at24_probe_inv:
  assumes "at24_probe F K P S d = Some (Inr at24)"
  shows "at24_probe_chip F d = Inr (chip at24)"
    and "page_size (chip at24) \<noteq> 0"
    and "num_addresses at24 = at24_num_addresses F (chip at24)"
    and "length (client at24) = unat (num_addresses at24)"
    and "bin_size at24 = unat (byte_len (chip at24))"
proof -
  from assms obtain c smb cl where
    c: "at24_probe_chip F d = Inr c" and ps: "page_size c \<noteq> 0"
    and n0: "at24_num_addresses F c \<noteq> 0"
    and cl: "at24_new_dummies S (addr d) [1..<unat (at24_num_addresses F c)] [addr d] = Some cl"
    and a: "chip at24 = c \<and> num_addresses at24 = at24_num_addresses F c \<and> client at24 = cl
            \<and> bin_size at24 = unat (byte_len c)"
    by (auto simp: at24_probe_def Let_def split: sum.splits if_splits option.splits)
  from n0 have "0 < unat (at24_num_addresses F c)" by (simp add: unat_gt_0)
  with new_dummies_length [OF cl] have "length cl = unat (at24_num_addresses F c)" by simp
  with c ps a show "at24_probe_chip F d = Inr (chip at24)"
    and "page_size (chip at24) \<noteq> 0"
    and "num_addresses at24 = at24_num_addresses F (chip at24)"
    and "length (client at24) = unat (num_addresses at24)"
    and "bin_size at24 = unat (byte_len (chip at24))"
    by simp_all
qed

subsection \<open>The number of addresses\<close>

text \<open>
  Claim C6, as amended. For every geometry, the number of addresses that \<^verbatim>\<open>at24_probe\<close>
  derives is 8 when the TAKE8ADDR flag is set, whatever the capacity; otherwise, with
  \<open>span\<close> the bytes behind one address, 65536 when ADDR16 is set and 256 otherwise, and
  for a capacity of at most \<open>2 ^ 32 - span\<close>, it is the ceiling of the capacity divided
  by the span; and in these cases it is at least 1 whenever the capacity is not 0.
\<close>

theorem num_addresses_derived:
  "(flags c AND AT24_FLAG_TAKE8ADDR F \<noteq> 0 \<longrightarrow> at24_num_addresses F c = 8) \<and>
   (flags c AND AT24_FLAG_TAKE8ADDR F = 0 \<and>
    unat (byte_len c) + (if flags c AND AT24_FLAG_ADDR16 F \<noteq> 0 then 65536 else 256)
      \<le> 4294967296 \<longrightarrow>
      int (unat (at24_num_addresses F c)) =
        \<lceil>real (unat (byte_len c)) /
          real (if flags c AND AT24_FLAG_ADDR16 F \<noteq> 0 then 65536 else 256 :: nat)\<rceil>) \<and>
   (byte_len c \<noteq> 0 \<and>
    (flags c AND AT24_FLAG_TAKE8ADDR F \<noteq> 0 \<or>
     unat (byte_len c) + (if flags c AND AT24_FLAG_ADDR16 F \<noteq> 0 then 65536 else 256)
       \<le> 4294967296) \<longrightarrow>
      1 \<le> unat (at24_num_addresses F c))"
proof -
  let ?span = "if flags c AND AT24_FLAG_ADDR16 F \<noteq> 0 then 65536 else 256 :: nat"
  have span: "0 < ?span" by simp
  have take8: "at24_num_addresses F c = 8" if "flags c AND AT24_FLAG_TAKE8ADDR F \<noteq> 0"
    using that by (simp add: at24_num_addresses_def)
  have quot: "unat (at24_num_addresses F c) = (unat (byte_len c) + ?span - 1) div ?span"
    if "flags c AND AT24_FLAG_TAKE8ADDR F = 0" and "unat (byte_len c) + ?span \<le> 4294967296"
    using that by (rule unat_num_addresses)
  have ceil: "int (unat (at24_num_addresses F c)) = \<lceil>real (unat (byte_len c)) / real ?span\<rceil>"
    if "flags c AND AT24_FLAG_TAKE8ADDR F = 0" and "unat (byte_len c) + ?span \<le> 4294967296"
    using quot [OF that] ceil_div_ceiling [OF span, of "unat (byte_len c)"] by simp
  have pos: "1 \<le> unat (at24_num_addresses F c)"
    if nz: "byte_len c \<noteq> 0"
      and r: "flags c AND AT24_FLAG_TAKE8ADDR F \<noteq> 0 \<or> unat (byte_len c) + ?span \<le> 4294967296"
  proof (cases "flags c AND AT24_FLAG_TAKE8ADDR F \<noteq> 0")
    case True
    then show ?thesis by (simp add: take8)
  next
    case False
    from nz have "0 < unat (byte_len c)" by (simp add: unat_gt_0)
    from ceil_div_pos [OF span this] quot False r show ?thesis by (simp add: Suc_le_eq)
  qed
  from take8 ceil pos show ?thesis by blast
qed

text \<open>
  The 24c00 of the table (16 bytes, TAKE8ADDR) takes 8 addresses, a 1024-byte chip
  with 8-bit addresses takes 4, and the largest capacity the amended claim covers with
  8-bit addresses, \<open>2 ^ 32 - 256\<close> bytes, takes \<open>2 ^ 24 - 1\<close>.
\<close>

theorem num_addresses_derived_witness:
  "at24_num_addresses linux_flag_bits \<lparr>byte_len = 16, page_size = 1, flags = 0x10\<rparr> = 8 \<and>
   1 \<le> unat (at24_num_addresses linux_flag_bits \<lparr>byte_len = 16, page_size = 1, flags = 0x10\<rparr>) \<and>
   int (unat (at24_num_addresses linux_flag_bits \<lparr>byte_len = 1024, page_size = 1, flags = 0\<rparr>)) =
     \<lceil>real (1024 :: nat) / real (256 :: nat)\<rceil> \<and>
   at24_num_addresses linux_flag_bits \<lparr>byte_len = 1024, page_size = 1, flags = 0\<rparr> = 4 \<and>
   unat (byte_len chip_4g_fits) + 256 = 4294967296 \<and>
   int (unat (at24_num_addresses linux_flag_bits chip_4g_fits)) =
     \<lceil>real (4294967040 :: nat) / real (256 :: nat)\<rceil> \<and>
   at24_num_addresses linux_flag_bits chip_4g_fits = 16777215 \<and>
   1 \<le> unat (at24_num_addresses linux_flag_bits chip_4g_fits)"
  using num_addresses_derived [of "\<lparr>byte_len = 16, page_size = 1, flags = 0x10\<rparr>" linux_flag_bits]
    num_addresses_derived [of "\<lparr>byte_len = 1024, page_size = 1, flags = 0\<rparr>" linux_flag_bits]
    num_addresses_derived [of chip_4g_fits linux_flag_bits]
  by (simp add: linux_flag_bits_def at24_num_addresses_def DIV_ROUND_UP_def chip_4g_fits_def)

text \<open>
  The claim as written, for every geometry, fails where the sum \<open>byte_len + span - 1\<close>
  of \<^verbatim>\<open>DIV_ROUND_UP\<close> does not fit in 32 bits: platform data with \<open>2 ^ 32 - 1\<close> bytes
  and 8-bit addresses has a ceiling of \<open>2 ^ 24\<close> spans, and the number of addresses
  computed is 0, which is neither the ceiling nor at least 1.
\<close>

theorem num_addresses_counterexample:
  "flags chip_4g AND AT24_FLAG_TAKE8ADDR linux_flag_bits = 0 \<and>
   flags chip_4g AND AT24_FLAG_ADDR16 linux_flag_bits = 0 \<and>
   byte_len chip_4g \<noteq> 0 \<and>
   \<lceil>real (unat (byte_len chip_4g)) / real (256 :: nat)\<rceil> = 16777216 \<and>
   at24_num_addresses linux_flag_bits chip_4g = 0 \<and>
   \<not> 1 \<le> unat (at24_num_addresses linux_flag_bits chip_4g)"
  by (simp add: linux_flag_bits_def at24_num_addresses_def DIV_ROUND_UP_def chip_4g_def)


subsection \<open>Address translation\<close>

text \<open>The definitions that evaluate \<^verbatim>\<open>at24_probe\<close> at a concrete device.\<close>

lemmas probe_eval =
  at24_probe_def at24_probe_chip_def at24_probe_smbus_def test_dev_def test_sys_def
  test_kernel_def default_params_def linux_flag_bits_def Let_def BIT_def AT24_BITMASK_def
  AT24_SIZE_BYTELEN_def AT24_SIZE_FLAGS_def at24_get_ofdata_def i2c_check_functionality_def
  at24_num_addresses_def DIV_ROUND_UP_def upt_rec

text \<open>
  Claim C3, as amended. For every device instance that \<^verbatim>\<open>at24_probe\<close> constructs and
  every offset below the capacity, where, with \<open>span\<close> the bytes behind one address
  (65536 when ADDR16 is set and 256 otherwise), either the TAKE8ADDR flag is clear and the
  capacity is at most \<open>2 ^ 32 - span\<close>, or the flag is set and the offset is below 8
  spans: \<^verbatim>\<open>at24_translate_offset\<close> takes the client at index \<open>offset >> 16\<close> and
  leaves the in-chip offset \<open>offset & 0xFFFF\<close> when ADDR16 is set, and takes index
  \<open>offset >> 8\<close> and leaves \<open>offset & 0xFF\<close> otherwise; the index is below the number
  of addresses, so the client is an entry of the array, and the in-chip offset is below
  the span of one address.
\<close>

theorem translate_offset_consistent:
  assumes probe: "at24_probe F K P S d = Some (Inr at24)"
    and off: "offset < byte_len (chip at24)"
    and fits: "flags (chip at24) AND AT24_FLAG_TAKE8ADDR F = 0 \<Longrightarrow>
      unat (byte_len (chip at24)) +
        (if flags (chip at24) AND AT24_FLAG_ADDR16 F \<noteq> 0 then 65536 else 256) \<le> 4294967296"
    and take8: "flags (chip at24) AND AT24_FLAG_TAKE8ADDR F \<noteq> 0 \<Longrightarrow>
      unat offset < 8 * (if flags (chip at24) AND AT24_FLAG_ADDR16 F \<noteq> 0 then 65536 else 256)"
  shows "(flags (chip at24) AND AT24_FLAG_ADDR16 F \<noteq> 0 \<longrightarrow>
            at24_translate_offset F at24 offset =
              (Some (client at24 ! unat (drop_bit 16 offset)), offset AND 0xffff) \<and>
            drop_bit 16 offset < num_addresses at24 \<and> unat (offset AND 0xffff) < 65536) \<and>
         (flags (chip at24) AND AT24_FLAG_ADDR16 F = 0 \<longrightarrow>
            at24_translate_offset F at24 offset =
              (Some (client at24 ! unat (drop_bit 8 offset)), offset AND 0xff) \<and>
            drop_bit 8 offset < num_addresses at24 \<and> unat (offset AND 0xff) < 256)"
proof -
  let ?c = "chip at24"
  let ?span = "if flags ?c AND AT24_FLAG_ADDR16 F \<noteq> 0 then 65536 else 256 :: nat"
  let ?n = "unat (num_addresses at24)"
  note inv = at24_probe_inv [OF probe]
  have span: "0 < ?span" by simp
  from off have lt: "unat offset < unat (byte_len ?c)" by (simp add: word_less_nat_alt)
  have cover: "unat offset < ?n * ?span"
  proof (cases "flags ?c AND AT24_FLAG_TAKE8ADDR F \<noteq> 0")
    case True
    then have "?n = 8" using inv(3) by (simp add: at24_num_addresses_def)
    with take8 [OF True] show ?thesis by simp
  next
    case False
    then have t: "flags ?c AND AT24_FLAG_TAKE8ADDR F = 0" by simp
    have "?n = (unat (byte_len ?c) + ?span - 1) div ?span"
      using unat_num_addresses [OF t fits [OF t]] inv(3) by simp
    with ceil_div_cover [OF span, of "unat (byte_len ?c)"] lt show ?thesis by simp
  qed
  then have idx: "unat offset div ?span < ?n"
    using span by (simp add: less_mult_imp_div_less)
  show ?thesis
  proof (intro conjI impI)
    assume a: "flags ?c AND AT24_FLAG_ADDR16 F \<noteq> 0"
    with idx have i: "unat (drop_bit 16 offset) < ?n" by (simp add: unat_drop_bit_16)
    then show "drop_bit 16 offset < num_addresses at24" by (simp add: word_less_nat_alt)
    from i inv(4) a show "at24_translate_offset F at24 offset =
        (Some (client at24 ! unat (drop_bit 16 offset)), offset AND 0xffff)"
      by (simp add: at24_translate_offset_def at24_client_def)
    show "unat (offset AND 0xffff) < 65536" by (simp add: unat_and_ffff)
  next
    assume a: "flags ?c AND AT24_FLAG_ADDR16 F = 0"
    with idx have i: "unat (drop_bit 8 offset) < ?n" by (simp add: unat_drop_bit_8)
    then show "drop_bit 8 offset < num_addresses at24" by (simp add: word_less_nat_alt)
    from i inv(4) a show "at24_translate_offset F at24 offset =
        (Some (client at24 ! unat (drop_bit 8 offset)), offset AND 0xff)"
      by (simp add: at24_translate_offset_def at24_client_def)
    show "unat (offset AND 0xff) < 256" by (simp add: unat_and_ff)
  qed
qed

text \<open>
  Four instances. The table's 24c04 has 512 bytes behind two addresses: offset 300 is
  byte 44 of the second. The table's 24c00 has TAKE8ADDR and 16 bytes: offset 5 is byte
  5 of the first of its 8 addresses. The 24c128 has 16-bit addresses: offset 0x1234 stays
  0x1234 at its one address. A geometry with TAKE8ADDR and 4096 bytes: offset 2047, the
  last one below 8 spans, is byte 255 of the last of the 8 addresses.
\<close>

lemma probe_24c04:
  "at24_probe linux_flag_bits test_kernel default_params test_sys (test_dev None None 8201) =
     Some (Inr at24_24c04)"
  by (simp add: probe_eval at24_24c04_def)

lemma probe_24c00:
  "at24_probe linux_flag_bits test_kernel default_params test_sys (test_dev None None 8708) =
     Some (Inr at24_24c00)"
  by (simp add: probe_eval at24_24c00_def)

lemma probe_24c128:
  "at24_probe linux_flag_bits test_kernel test_params test_sys
     (test_dev (Some \<lparr>byte_len = 16384, page_size = 64, flags = 0x80\<rparr>) None 0) =
     Some (Inr at24_24c128)"
  by (simp add: probe_eval at24_24c128_def test_params_def)

lemma probe_take8:
  "at24_probe linux_flag_bits test_kernel default_params test_sys
     (test_dev (Some \<lparr>byte_len = 4096, page_size = 16, flags = 0x10\<rparr>) None 0) =
     Some (Inr at24_take8)"
  by (simp add: probe_eval at24_take8_def)

theorem translate_offset_consistent_witness:
  "at24_probe linux_flag_bits test_kernel default_params test_sys (test_dev None None 8201) =
     Some (Inr at24_24c04) \<and>
   (300 :: u32) < byte_len (chip at24_24c04) \<and>
   flags (chip at24_24c04) AND AT24_FLAG_TAKE8ADDR linux_flag_bits = 0 \<and>
   unat (byte_len (chip at24_24c04)) + 256 \<le> 4294967296 \<and>
   at24_translate_offset linux_flag_bits at24_24c04 300 = (Some 0x51, 44) \<and>
   drop_bit 8 (300 :: u32) < num_addresses at24_24c04 \<and>
   at24_probe linux_flag_bits test_kernel default_params test_sys (test_dev None None 8708) =
     Some (Inr at24_24c00) \<and>
   (5 :: u32) < byte_len (chip at24_24c00) \<and>
   flags (chip at24_24c00) AND AT24_FLAG_TAKE8ADDR linux_flag_bits = 0x10 \<and>
   unat (5 :: u32) < 8 * 256 \<and>
   at24_translate_offset linux_flag_bits at24_24c00 5 = (Some 0x50, 5) \<and>
   drop_bit 8 (5 :: u32) < num_addresses at24_24c00 \<and>
   (0x1234 :: u32) < byte_len (chip at24_24c128) \<and>
   unat (byte_len (chip at24_24c128)) + 65536 \<le> 4294967296 \<and>
   at24_translate_offset linux_flag_bits at24_24c128 0x1234 = (Some 0x50, 0x1234) \<and>
   drop_bit 16 (0x1234 :: u32) < num_addresses at24_24c128 \<and>
   (2047 :: u32) < byte_len (chip at24_take8) \<and>
   flags (chip at24_take8) AND AT24_FLAG_TAKE8ADDR linux_flag_bits = 0x10 \<and>
   unat (2047 :: u32) < 8 * 256 \<and>
   at24_translate_offset linux_flag_bits at24_take8 2047 = (Some 0x57, 255) \<and>
   drop_bit 8 (2047 :: u32) < num_addresses at24_take8"
  using translate_offset_consistent [OF probe_24c04, where offset = 300]
    translate_offset_consistent [OF probe_24c00, where offset = 5]
    translate_offset_consistent [OF probe_24c128, where offset = "0x1234"]
    translate_offset_consistent [OF probe_take8, where offset = 2047]
    probe_24c04 probe_24c00
  by (simp add: at24_24c04_def at24_24c00_def at24_24c128_def at24_take8_def linux_flag_bits_def)

text \<open>
  The claim as written, for every geometry and every offset below the capacity, fails in
  two places. Where TAKE8ADDR fixes the number of addresses at 8 and the capacity is
  larger than 8 spans: with 4096 bytes and 8-bit addresses, offset 4095 translates to
  index 15, outside the 8 clients. And where the sum of \<^verbatim>\<open>DIV_ROUND_UP\<close> wraps: with
  \<open>2 ^ 32 - 1\<close> bytes and 8-bit addresses the number of addresses is 0, so that not
  even index 0, which offset 0 translates to, is below it.
\<close>

theorem translate_offset_counterexample:
  "at24_probe linux_flag_bits test_kernel default_params test_sys
     (test_dev (Some \<lparr>byte_len = 4096, page_size = 16, flags = 0x10\<rparr>) None 0) =
     Some (Inr at24_take8) \<and>
   (4095 :: u32) < byte_len (chip at24_take8) \<and>
   \<not> drop_bit 8 (4095 :: u32) < num_addresses at24_take8 \<and>
   at24_translate_offset linux_flag_bits at24_take8 4095 = (None, 0xff) \<and>
   flags chip_4g AND AT24_FLAG_TAKE8ADDR linux_flag_bits = 0 \<and>
   flags chip_4g AND AT24_FLAG_ADDR16 linux_flag_bits = 0 \<and>
   (0 :: u32) < byte_len chip_4g \<and>
   at24_num_addresses linux_flag_bits chip_4g = 0 \<and>
   \<not> drop_bit 8 (0 :: u32) < at24_num_addresses linux_flag_bits chip_4g"
  by (simp add: probe_eval at24_take8_def at24_translate_offset_def at24_client_def chip_4g_def)


subsection \<open>Module initialisation\<close>

lemma ilog2_bounds: "0 < n \<Longrightarrow> 2 ^ ilog2 n \<le> n \<and> n < 2 ^ Suc (ilog2 n)"
proof (induction n rule: ilog2.induct)
  case (1 n)
  show ?case
  proof (cases "n < 2")
    case True
    with 1 show ?thesis by (simp add: ilog2.simps)
  next
    case False
    then have "0 < n div 2" by simp
    with 1 False have "2 ^ ilog2 (n div 2) \<le> n div 2 \<and> n div 2 < 2 ^ Suc (ilog2 (n div 2))" by simp
    moreover have "ilog2 n = Suc (ilog2 (n div 2))" using False by (simp add: ilog2.simps)
    ultimately show ?thesis by simp linarith
  qed
qed

lemma ilog2_u32: 
  assumes "n \<noteq> 0"
  shows "ilog2 (unat (n::u32)) < 32"
proof -
  from assms have "0 < unat n" by (simp add: unat_gt_0)
  from ilog2_bounds [OF this] unat_u32_bound [of n]
  have "(2::nat) ^ ilog2 (unat n) < 2 ^ 32" by simp
  then show ?thesis by (simp only: power_strict_increasing_iff one_less_numeral_iff semiring_norm)
qed

text \<open>
  Claim C9. \<^verbatim>\<open>delta_at24_init\<close> refuses an \<open>io_limit\<close> of 0 with \<open>EINVAL\<close> and
  leaves the parameters alone; any other \<open>io_limit\<close> is replaced by the power of two
  \<open>2^k\<close> with \<open>2^k \<le> io_limit < 2^(k+1)\<close>, and the driver is registered, so that
  devices are probed, only with the parameters so normalised. An \<open>io_limit\<close> of 100
  becomes 64.
\<close>

theorem init_normalises_io_limit:
  "(io_limit P = 0 \<longrightarrow> delta_at24_init i2c_add_driver P = (Some EINVAL, P)) \<and>
   (io_limit P \<noteq> 0 \<longrightarrow>
      delta_at24_init i2c_add_driver P =
        (i2c_add_driver (P\<lparr>io_limit := rounddown_pow_of_two (io_limit P)\<rparr>),
         P\<lparr>io_limit := rounddown_pow_of_two (io_limit P)\<rparr>) \<and>
      (\<exists>k < 32. rounddown_pow_of_two (io_limit P) = 2 ^ k \<and>
         2 ^ k \<le> unat (io_limit P) \<and> unat (io_limit P) < 2 * 2 ^ k)) \<and>
   io_limit (snd (delta_at24_init i2c_add_driver (P\<lparr>io_limit := 100\<rparr>))) = 64"
proof (intro conjI impI)
  assume "io_limit P = 0"
  then show "delta_at24_init i2c_add_driver P = (Some EINVAL, P)"
    by (simp add: delta_at24_init_def)
next
  assume "io_limit P \<noteq> 0"
  then show "delta_at24_init i2c_add_driver P =
        (i2c_add_driver (P\<lparr>io_limit := rounddown_pow_of_two (io_limit P)\<rparr>),
         P\<lparr>io_limit := rounddown_pow_of_two (io_limit P)\<rparr>)"
    by (simp add: delta_at24_init_def Let_def)
next
  assume nz: "io_limit P \<noteq> 0"
  let ?k = "ilog2 (unat (io_limit P))"
  from nz have "0 < unat (io_limit P)" by (simp add: unat_gt_0)
  from ilog2_bounds [OF this] ilog2_u32 [OF nz]
  have "?k < 32 \<and> rounddown_pow_of_two (io_limit P) = 2 ^ ?k \<and>
         2 ^ ?k \<le> unat (io_limit P) \<and> unat (io_limit P) < 2 * 2 ^ ?k"
    by (simp add: rounddown_pow_of_two_def)
  then show "\<exists>k < 32. rounddown_pow_of_two (io_limit P) = 2 ^ k \<and>
         2 ^ k \<le> unat (io_limit P) \<and> unat (io_limit P) < 2 * 2 ^ k"
    by blast
next
  show "io_limit (snd (delta_at24_init i2c_add_driver (P\<lparr>io_limit := 100\<rparr>))) = 64"
    by (simp add: delta_at24_init_def Let_def rounddown_pow_of_two_def ilog2.simps)
qed

text \<open>
  At \<open>io_limit\<close> 0, 100 and the default 128, with a registration that succeeds.
\<close>

theorem init_normalises_io_limit_witness:
  "delta_at24_init (\<lambda>P. None) (default_params\<lparr>io_limit := 0\<rparr>) =
     (Some EINVAL, default_params\<lparr>io_limit := 0\<rparr>) \<and>
   delta_at24_init (\<lambda>P. None) (default_params\<lparr>io_limit := 100\<rparr>) =
     (None, default_params\<lparr>io_limit := 64\<rparr>) \<and>
   delta_at24_init (\<lambda>P. None) default_params = (None, default_params)"
  using init_normalises_io_limit [of "default_params\<lparr>io_limit := 0\<rparr>" "\<lambda>P. None"]
    init_normalises_io_limit [of "default_params\<lparr>io_limit := 100\<rparr>" "\<lambda>P. None"]
    init_normalises_io_limit [of default_params "\<lambda>P. None"]
  by (simp add: default_params_def rounddown_pow_of_two_def ilog2.simps)

subsection \<open>Geometry decode\<close>

lemma ucast_BIT: "k < 32 \<Longrightarrow> (ucast (BIT k) :: u32) = 2 ^ k"
  unfolding BIT_def by (rule bit_word_eqI) (auto simp: bit_simps)

lemma unat_pow2_u32:
  assumes "k < 32"
  shows "unat ((2::u32) ^ k) = 2 ^ k"
proof -
  have "(2::nat) ^ k < 2 ^ 32" by (rule power_strict_increasing [OF assms]) simp
  moreover have "unat (word_of_nat (2 ^ k) :: u32) = 2 ^ k mod 2 ^ LENGTH(32)"
    by (rule unat_of_nat)
  ultimately show ?thesis by simp
qed

lemma unat_and_31: "unat ((m::u64) AND 31) < 32"
proof -
  have "m AND 31 \<le> 31" by (rule word_and_le1)
  then show ?thesis by (simp add: word_le_nat_alt)
qed

lemma mask_consts: "AT24_BITMASK 5 = 31" "AT24_BITMASK 8 = 255"
  by (simp_all add: AT24_BITMASK_def BIT_def)

text \<open>
  Claim C7, as amended. For a device without platform data: a magic of 0 makes
  \<^verbatim>\<open>at24_probe\<close> fail with \<open>ENODEV\<close>; a magic other than 0 decodes to the capacity
  \<open>2^(magic & 31)\<close>, to the flags \<open>(magic >> 5) & 0xFF\<close> with the READONLY bit added
  when the device's property node has the read-only property, and to the page size 1
  unless the node has a page size property, which is then taken. The geometry depends on
  nothing but the magic and the node: every device instance constructed for the device
  has it.
\<close>

theorem geometry_decode:
  assumes "platform_data d = None"
  shows "(driver_data d = 0 \<longrightarrow>
            at24_probe_chip F d = Inl ENODEV \<and> at24_probe F K P S d = Some (Inl ENODEV)) \<and>
         (driver_data d \<noteq> 0 \<longrightarrow>
            (\<exists>c. at24_probe_chip F d = Inr c \<and>
               unat (byte_len c) = 2 ^ unat (driver_data d AND 31) \<and>
               flags c =
                 ucast (drop_bit 5 (driver_data d) AND 0xff) OR
                 (case dev_of_node d of
                    None \<Rightarrow> 0
                  | Some n \<Rightarrow> if prop_read_only n then AT24_FLAG_READONLY F else 0) \<and>
               page_size c =
                 (case dev_of_node d of
                    None \<Rightarrow> 1
                  | Some n \<Rightarrow> (case prop_pagesize n of None \<Rightarrow> 1 | Some v \<Rightarrow> ucast v)) \<and>
               (\<forall>K' P' S' at24. at24_probe F K' P' S' d = Some (Inr at24) \<longrightarrow> chip at24 = c)))"
proof (intro conjI impI)
  assume z: "driver_data d = 0"
  with assms show "at24_probe_chip F d = Inl ENODEV" by (simp add: at24_probe_chip_def)
  then show "at24_probe F K P S d = Some (Inl ENODEV)" by (simp add: at24_probe_def)
next
  assume nz: "driver_data d \<noteq> 0"
  let ?m = "driver_data d"
  let ?c0 = "\<lparr>byte_len = ucast (BIT (unat (?m AND 31))), page_size = 1,
              flags = ucast (drop_bit 5 ?m AND 0xff)\<rparr>"
  let ?c = "at24_get_ofdata F (dev_of_node d) ?c0"
  have chip: "at24_probe_chip F d = Inr ?c"
    using assms nz by (simp add: at24_probe_chip_def Let_def mask_consts AT24_SIZE_BYTELEN_def AT24_SIZE_FLAGS_def)
  have bl: "byte_len ?c = 2 ^ unat (?m AND 31)"
    using ucast_BIT [OF unat_and_31 [of ?m]]
    by (simp add: at24_get_ofdata_def Let_def split: option.splits)
  have "unat (byte_len ?c) = 2 ^ unat (?m AND 31)"
    using unat_and_31 [of ?m] by (simp only: bl unat_pow2_u32)
  moreover have "flags ?c = ucast (drop_bit 5 ?m AND 0xff) OR
      (case dev_of_node d of None \<Rightarrow> 0
       | Some n \<Rightarrow> if prop_read_only n then AT24_FLAG_READONLY F else 0)"
    by (simp add: at24_get_ofdata_def Let_def split: option.splits)
  moreover have "page_size ?c =
      (case dev_of_node d of None \<Rightarrow> 1
       | Some n \<Rightarrow> (case prop_pagesize n of None \<Rightarrow> 1 | Some v \<Rightarrow> ucast v))"
    by (simp add: at24_get_ofdata_def Let_def split: option.splits)
  moreover have "\<forall>K' P' S' at24. at24_probe F K' P' S' d = Some (Inr at24) \<longrightarrow> chip at24 = ?c"
    using at24_probe_inv(1) chip by fastforce
  ultimately show "\<exists>c. at24_probe_chip F d = Inr c \<and>
               unat (byte_len c) = 2 ^ unat (driver_data d AND 31) \<and>
               flags c =
                 ucast (drop_bit 5 (driver_data d) AND 0xff) OR
                 (case dev_of_node d of
                    None \<Rightarrow> 0
                  | Some n \<Rightarrow> if prop_read_only n then AT24_FLAG_READONLY F else 0) \<and>
               page_size c =
                 (case dev_of_node d of
                    None \<Rightarrow> 1
                  | Some n \<Rightarrow> (case prop_pagesize n of None \<Rightarrow> 1 | Some v \<Rightarrow> ucast v)) \<and>
               (\<forall>K' P' S' at24. at24_probe F K' P' S' d = Some (Inr at24) \<longrightarrow> chip at24 = c)"
    using chip by blast
qed

text \<open>
  The magic of the table's 24c02 is 8200. With a node that has both properties it
  decodes to 256 bytes, page size 16, READONLY; without a node to 256 bytes, page size 1,
  no flags.
\<close>

lemma table_24c02: "map_of (delta_at24_ids F) ''24c02-delta'' = Some 8200"
  by (simp add: delta_at24_ids_def AT24_DEVICE_MAGIC_def ilog2.simps AT24_SIZE_BYTELEN_def
      AT24_SIZE_FLAGS_def)

theorem geometry_decode_witness:
  "platform_data (test_dev None (Some \<lparr>prop_read_only = True, prop_pagesize = Some 16\<rparr>) 8200) = None \<and>
   driver_data (test_dev None (Some \<lparr>prop_read_only = True, prop_pagesize = Some 16\<rparr>) 8200) \<noteq> 0 \<and>
   at24_probe_chip linux_flag_bits
     (test_dev None (Some \<lparr>prop_read_only = True, prop_pagesize = Some 16\<rparr>) 8200) =
     Inr \<lparr>byte_len = 256, page_size = 16, flags = 0x40\<rparr> \<and>
   at24_probe_chip linux_flag_bits (test_dev None None 8200) =
     Inr \<lparr>byte_len = 256, page_size = 1, flags = 0\<rparr> \<and>
   at24_probe linux_flag_bits test_kernel default_params test_sys (test_dev None None 0) =
     Some (Inl ENODEV)"
  using
    geometry_decode [of "test_dev None (Some \<lparr>prop_read_only = True, prop_pagesize = Some 16\<rparr>) 8200"
      linux_flag_bits test_kernel default_params test_sys]
    geometry_decode [of "test_dev None None 8200" linux_flag_bits test_kernel default_params test_sys]
    geometry_decode [of "test_dev None None 0" linux_flag_bits test_kernel default_params test_sys]
  by (simp add: probe_eval)

text \<open>
  The claim as written gives the flags as \<open>(magic >> 5) & 0xFF\<close> alone. For the 24c02
  that is 0, and with a read-only property on the node the decoded flags are READONLY.
\<close>

theorem geometry_decode_counterexample:
  "platform_data (test_dev None (Some \<lparr>prop_read_only = True, prop_pagesize = None\<rparr>) 8200) = None \<and>
   driver_data (test_dev None (Some \<lparr>prop_read_only = True, prop_pagesize = None\<rparr>) 8200) \<noteq> 0 \<and>
   at24_probe_chip linux_flag_bits
     (test_dev None (Some \<lparr>prop_read_only = True, prop_pagesize = None\<rparr>) 8200) =
     Inr \<lparr>byte_len = 256, page_size = 1, flags = 0x40\<rparr> \<and>
   (ucast (drop_bit 5 (8200 :: u64) AND 0xff) :: u8) = 0"
  by (simp add: probe_eval)


subsection \<open>The retry loops\<close>

text \<open>
  A retry loop ends in one of two ways: with the count it was given, or with
  \<open>ETIMEDOUT\<close>. The read loop stores one byte in the first case and leaves the buffer
  alone in the second.
\<close>

lemma write_loop_result:
  "at24_eeprom_write_loop K B c offset count timeout buf pos w = Some (st, w') \<Longrightarrow>
     st = Inr count \<or> st = Inl ETIMEDOUT"
proof (induction K B c offset count timeout buf pos w rule: at24_eeprom_write_loop.induct)
  case (1 K B c offset count timeout buf pos w)
  obtain r w1 where wr: "i2c_smbus_write_word_data B c (ucast (drop_bit 8 offset AND 0xff))
      (ucast ((offset AND 0xFF) OR char_promote K (buf ! pos))) w = (r, w1)"
    by (cases "i2c_smbus_write_word_data B c (ucast (drop_bit 8 offset AND 0xff))
      (ucast ((offset AND 0xFF) OR char_promote K (buf ! pos))) w")
  show ?case
  proof (cases "pos < length buf")
    case False
    with "1.prems" show ?thesis by (simp add: at24_eeprom_write_loop.simps)
  next
    case lt: True
    show ?thesis
    proof (cases r)
      case (Inr u)
      with "1.prems" lt wr show ?thesis by (simp add: at24_eeprom_write_loop.simps)
    next
      case (Inl e)
      show ?thesis
      proof (cases "time_before (jiffies w) timeout")
        case False
        with "1.prems" lt wr Inl show ?thesis by (simp add: at24_eeprom_write_loop.simps)
      next
        case True
        with "1.prems" lt wr Inl
        have "at24_eeprom_write_loop K B c offset count timeout buf pos (msleep K 1 w1) =
            Some (st, w')"
          by (simp add: at24_eeprom_write_loop.simps [of K B c offset count timeout buf pos w])
        with "1.IH" lt wr Inl True show ?thesis by simp
      qed
    qed
  qed
qed



lemma eeprom_write_result:
  assumes "at24_eeprom_write F K B P at24 buf pos offset count w = Some (st, w')"
  shows "st = Inl ETIMEDOUT \<or> (\<exists>n. st = Inr n)"
  using assms
  by (auto simp: at24_eeprom_write_def Let_def split: prod.splits option.splits if_splits
      dest!: write_loop_result)

text \<open>The definitions that evaluate a transfer on the reference device.\<close>

lemmas bus_eval =
  at24_translate_offset_def at24_client_def i2c_smbus_write_byte_data_def
  i2c_smbus_read_byte_def i2c_smbus_write_word_data_def msleep_def time_before_def
  mutex_lock_def mutex_unlock_def eeprom_bus_def eeprom_ready_def fresh_world_def
  test_params_def test_kernel_def linux_flag_bits_def at24_24c128_def char_promote_def
  roundup_def Let_def


lemmas read_eval =
  at24_read_def at24_read_loop.simps at24_eeprom_read_def at24_eeprom_read_loop.simps bus_eval

lemmas write_eval =
  at24_bin_write_def at24_write_def at24_write_loop.simps at24_eeprom_write_def
  at24_eeprom_write_loop.simps bus_eval

subsection \<open>The page clamp of \<^verbatim>\<open>at24_eeprom_write\<close>\<close>











subsection \<open>The cleared read buffer\<close>







subsection \<open>The bound check of \<^verbatim>\<open>at24_bin_write\<close>\<close>

text \<open>Every step the driver takes adds to the trace, and a range write never ends in \<open>EFBIG\<close>.\<close>

lemma trace_write_word_data:
  "i2c_smbus_write_word_data B c a b w = (st, w1) \<Longrightarrow> trace w1 = trace w @ [WriteWordData c a b]"
  by (auto simp: i2c_smbus_write_word_data_def split: prod.splits)

lemma trace_write_byte_data:
  "i2c_smbus_write_byte_data B c a b w = (st, w1) \<Longrightarrow> trace w1 = trace w @ [WriteByteData c a b]"
  by (auto simp: i2c_smbus_write_byte_data_def split: prod.splits)

lemma trace_read_byte:
  "i2c_smbus_read_byte B c w = (st, w1) \<Longrightarrow> trace w1 = trace w @ [ReadByte c]"
  by (auto simp: i2c_smbus_read_byte_def split: prod.splits)

lemma trace_msleep: "trace (msleep K m w) = trace w @ [Msleep m]"
  by (simp add: msleep_def)

lemma write_loop_trace:
  "at24_eeprom_write_loop K B c offset count timeout buf pos w = Some (st, w') \<Longrightarrow>
     \<exists>es. trace w' = trace w @ es"
proof (induction K B c offset count timeout buf pos w rule: at24_eeprom_write_loop.induct)
  case (1 K B c offset count timeout buf pos w)
  note unfold = at24_eeprom_write_loop.simps [of K B c offset count timeout buf pos w]
  obtain r w1 where wr: "i2c_smbus_write_word_data B c (ucast (drop_bit 8 offset AND 0xff))
      (ucast ((offset AND 0xFF) OR char_promote K (buf ! pos))) w = (r, w1)"
    by (cases "i2c_smbus_write_word_data B c (ucast (drop_bit 8 offset AND 0xff))
      (ucast ((offset AND 0xFF) OR char_promote K (buf ! pos))) w")
  note t1 = trace_write_word_data [OF wr]
  show ?case
  proof (cases "pos < length buf")
    case False
    with "1.prems" show ?thesis by (simp add: unfold)
  next
    case lt: True
    show ?thesis
    proof (cases r)
      case (Inr u)
      with "1.prems" lt wr t1 show ?thesis by (auto simp: unfold)
    next
      case (Inl e)
      show ?thesis
      proof (cases "time_before (jiffies w) timeout")
        case False
        with "1.prems" lt wr Inl t1 show ?thesis by (auto simp: unfold trace_msleep)
      next
        case True
        with "1.prems" lt wr Inl
        have "at24_eeprom_write_loop K B c offset count timeout buf pos (msleep K 1 w1) =
            Some (st, w')"
          by (simp add: unfold)
        with "1.IH" lt wr Inl True have "\<exists>es. trace w' = trace (msleep K 1 w1) @ es"
          by simp
        then obtain es where "trace w' = trace (msleep K 1 w1) @ es" ..
        with t1 show ?thesis by (simp add: trace_msleep)
      qed
    qed
  qed
qed

lemma eeprom_write_trace:
  assumes "at24_eeprom_write F K B P at24 buf pos offset count w = Some (st, w')"
  shows "\<exists>es. trace w' = trace w @ es"
  using assms
  by (auto simp: at24_eeprom_write_def Let_def split: prod.splits option.splits if_splits
      dest!: write_loop_trace)

lemma write_range_result:
  "at24_write_loop F K B P at24 buf pos off count retval w = Some (ret, w') \<Longrightarrow>
     (ret = Inl ETIMEDOUT \<or> (\<exists>n. ret = Inr n)) \<and> (\<exists>es. trace w' = trace w @ es)"
proof (induction F K B P at24 buf pos off count retval w rule: at24_write_loop.induct)
  case (1 F K B P at24 buf pos off count retval w)
  note run = "1.prems"
  note unfold = at24_write_loop.simps [of F K B P at24 buf pos off count retval w]
  show ?case
  proof (cases "count = 0")
    case True
    from run have "ret = Inr retval \<and> w' = w" unfolding unfold using True by simp
    then show ?thesis by simp
  next
    case False
    with run obtain st w1 where
      e: "at24_eeprom_write F K B P at24 buf pos (ucast off) 1 w = Some (st, w1)"
      unfolding unfold by (auto split: option.splits)
    from eeprom_write_trace [OF e] obtain es1 where es1: "trace w1 = trace w @ es1" ..
    from eeprom_write_result [OF e]
    consider (timeout) "st = Inl ETIMEDOUT" | (none) "st = Inr 0" | (moved) n where "st = Inr n" "n \<noteq> 0"
      by (cases st) auto
    then show ?thesis
    proof cases
      case timeout
      from run have "ret = (if retval = 0 then Inl ETIMEDOUT else Inr retval) \<and> w' = w1"
        unfolding unfold using False e timeout by simp
      with es1 show ?thesis by (cases "retval = 0") simp_all
    next
      case none
      from run have "ret = Inr retval \<and> w' = w1"
        unfolding unfold using False e none by simp
      with es1 show ?thesis by simp
    next
      case moved
      with run False e
      have rec: "at24_write_loop F K B P at24 buf (pos + n) (off + word_of_nat n) (count - n)
          (retval + n) w1 = Some (ret, w')"
        by (simp add: unfold)
      from "1.IH" [OF False e refl moved(1) moved(2) rec] es1
      show ?thesis by auto
    qed
  qed
qed

lemma unat_ucast_u32_u64: "unat (ucast (x::u32) :: u64) = unat x"
proof -
  have "unat x < 2 ^ 64" using unat_u32_bound [of x] by simp
  then show ?thesis by (simp add: unsigned_ucast_eq take_bit_nat_eq_self)
qed

text \<open>
  Claim C8. For a device instance that \<^verbatim>\<open>at24_probe\<close> constructed, a write through
  the byte-range file whose starting offset is at or beyond the capacity returns
  \<open>EFBIG\<close> and leaves the world as it was: the lock is not taken and the bus is not
  touched. A write of one byte at offset capacity - 1 passes the check and is the range
  write itself; a range write never returns \<open>EFBIG\<close>, and any range write of at least
  one byte starts by taking the lock.
\<close>

theorem bin_write_bound_check:
  assumes "at24_probe F K0 P0 S d = Some (Inr at24)"
  shows "(unat (byte_len (chip at24)) \<le> unat off \<longrightarrow>
            at24_bin_write F K B P at24 buf off count w = Some (Inl EFBIG, w)) \<and>
         (byte_len (chip at24) \<noteq> 0 \<longrightarrow>
            at24_bin_write F K B P at24 buf (ucast (byte_len (chip at24) - 1)) 1 w =
            at24_write F K B P at24 buf (ucast (byte_len (chip at24) - 1)) 1 w) \<and>
         (\<forall>ret w'. at24_write F K B P at24 buf off count w = Some (ret, w') \<longrightarrow>
            ret \<noteq> Inl EFBIG \<and> (0 < count \<longrightarrow> (\<exists>es. trace w' = trace w @ MutexLock # es)))"
proof (intro conjI impI allI)
  note size = at24_probe_inv(5) [OF assms]
  show "at24_bin_write F K B P at24 buf off count w = Some (Inl EFBIG, w)"
    if "unat (byte_len (chip at24)) \<le> unat off"
    using that size by (simp add: at24_bin_write_def)
  show "at24_bin_write F K B P at24 buf (ucast (byte_len (chip at24) - 1)) 1 w =
      at24_write F K B P at24 buf (ucast (byte_len (chip at24) - 1)) 1 w"
    if nz: "byte_len (chip at24) \<noteq> 0"
  proof -
    from nz have "0 < unat (byte_len (chip at24))" by (simp add: unat_gt_0)
    moreover have "unat (byte_len (chip at24) - 1) = unat (byte_len (chip at24)) - 1"
      using nz by (simp add: unat_minus_one)
    moreover have "unat (ucast (byte_len (chip at24) - 1) :: u64) = unat (byte_len (chip at24) - 1)"
      by (rule unat_ucast_u32_u64)
    ultimately have "unat (ucast (byte_len (chip at24) - 1) :: u64) < bin_size at24"
      using size by simp
    then show ?thesis by (simp add: at24_bin_write_def)
  qed
  fix ret w'
  assume run: "at24_write F K B P at24 buf off count w = Some (ret, w')"
  show "ret \<noteq> Inl EFBIG"
    using run write_range_result [of F K B P at24 buf 0 off count 0 "mutex_lock w" ret]
    by (auto simp: at24_write_def Let_def split: if_splits option.splits)
  show "\<exists>es. trace w' = trace w @ MutexLock # es" if "0 < count"
    using that run write_range_result [of F K B P at24 buf 0 off count 0 "mutex_lock w" ret]
    by (auto simp: at24_write_def Let_def mutex_lock_def mutex_unlock_def
        split: if_splits option.splits)
qed


text \<open>
  On the 24c128 of 16384 bytes: a write at offset 16384 is refused and nothing happens;
  a write of one byte at offset 16383 takes the lock and goes to the bus.
\<close>

lemma write_last_eval:
  "at24_bin_write linux_flag_bits test_kernel eeprom_bus test_params at24_24c128 [0x41] 16383 1
     (fresh_world 0 0) =
   Some (Inr 1,
     \<lparr>jiffies = 0,
      dev = \<lparr>cells = (\<lambda>a. 0xff)(0x3fff := 0), cursor = 0x4000, ready_ops = 0, busy_ops = 0\<rparr>,
      trace = [MutexLock, WriteWordData 0x50 0x3f 0xff, MutexUnlock]\<rparr>)"
  by (simp add: write_eval)

theorem bin_write_bound_check_witness:
  "at24_probe linux_flag_bits test_kernel test_params test_sys
     (test_dev (Some \<lparr>byte_len = 16384, page_size = 64, flags = 0x80\<rparr>) None 0) =
     Some (Inr at24_24c128) \<and>
   unat (byte_len (chip at24_24c128)) \<le> unat (16384 :: u64) \<and>
   at24_bin_write linux_flag_bits test_kernel eeprom_bus test_params at24_24c128 [0x41] 16384 1
     (fresh_world 0 0) = Some (Inl EFBIG, fresh_world 0 0) \<and>
   byte_len (chip at24_24c128) \<noteq> 0 \<and>
   at24_bin_write linux_flag_bits test_kernel eeprom_bus test_params at24_24c128 [0x41]
     (ucast (byte_len (chip at24_24c128) - 1)) 1 (fresh_world 0 0) =
   Some (Inr 1,
     \<lparr>jiffies = 0,
      dev = \<lparr>cells = (\<lambda>a. 0xff)(0x3fff := 0), cursor = 0x4000, ready_ops = 0, busy_ops = 0\<rparr>,
      trace = [MutexLock, WriteWordData 0x50 0x3f 0xff, MutexUnlock]\<rparr>)"
  using bin_write_bound_check [OF probe_24c128, where off = 16384 and K = test_kernel
      and B = eeprom_bus and P = test_params and buf = "[0x41]" and count = 1
      and w = "fresh_world 0 0"]
    probe_24c128 write_last_eval
  by (simp add: at24_24c128_def)


subsection \<open>A failed transfer in a range request\<close>

text \<open>
  From the state in which an iteration starts, the loop gives what the whole request
  gives.
\<close>

lemma read_after_loop:
  "at24_read_after F K B P at24 buf off count w k = Some (b, pos, w1) \<Longrightarrow>
     k \<le> pos \<and>
     at24_read_loop F K B P at24 (replicate count 0 @ drop count buf) 0 off count 0 (mutex_lock w) =
     at24_read_loop F K B P at24 b pos (off + of_nat pos) (count - pos) pos w1"
proof (induction k arbitrary: b pos w1)
  case 0
  then show ?case by simp
next
  case (Suc k)
  from Suc.prems obtain b0 pos0 w0 n where
    prev: "at24_read_after F K B P at24 buf off count w k = Some (b0, pos0, w0)"
    and lt: "pos0 < count"
    and e: "at24_eeprom_read F K B P at24 b0 pos0 (ucast (off + of_nat pos0)) (count - pos0) w0 =
      Some (Inr n, b, w1)"
    and n: "n \<noteq> 0" and pos: "pos = pos0 + n"
    by (auto split: option.splits if_splits sum.splits)
  from Suc.IH [OF prev] have k: "k \<le> pos0"
    and ih: "at24_read_loop F K B P at24 (replicate count 0 @ drop count buf) 0 off count 0
        (mutex_lock w) =
      at24_read_loop F K B P at24 b0 pos0 (off + of_nat pos0) (count - pos0) pos0 w0"
    by simp_all
  have "at24_read_loop F K B P at24 b0 pos0 (off + of_nat pos0) (count - pos0) pos0 w0 =
      at24_read_loop F K B P at24 b pos (off + of_nat pos) (count - pos) pos w1"
    using lt e n
    by (subst at24_read_loop.simps) (simp add: pos add.assoc)
  with ih k n pos show ?case by simp
qed

lemma write_after_loop:
  "at24_write_after F K B P at24 buf off count w k = Some (pos, w1) \<Longrightarrow>
     k \<le> pos \<and>
     at24_write_loop F K B P at24 buf 0 off count 0 (mutex_lock w) =
     at24_write_loop F K B P at24 buf pos (off + of_nat pos) (count - pos) pos w1"
proof (induction k arbitrary: pos w1)
  case 0
  then show ?case by simp
next
  case (Suc k)
  from Suc.prems obtain pos0 w0 n where
    prev: "at24_write_after F K B P at24 buf off count w k = Some (pos0, w0)"
    and lt: "pos0 < count"
    and e: "at24_eeprom_write F K B P at24 buf pos0 (ucast (off + of_nat pos0)) 1 w0 =
      Some (Inr n, w1)"
    and n: "n \<noteq> 0" and pos: "pos = pos0 + n"
    by (auto split: option.splits if_splits sum.splits)
  from Suc.IH [OF prev] have k: "k \<le> pos0"
    and ih: "at24_write_loop F K B P at24 buf 0 off count 0 (mutex_lock w) =
      at24_write_loop F K B P at24 buf pos0 (off + of_nat pos0) (count - pos0) pos0 w0"
    by simp_all
  have "at24_write_loop F K B P at24 buf pos0 (off + of_nat pos0) (count - pos0) pos0 w0 =
      at24_write_loop F K B P at24 buf pos (off + of_nat pos) (count - pos) pos w1"
    using lt e n
    by (subst at24_write_loop.simps) (simp add: pos add.assoc)
  with ih k n pos show ?case by simp
qed

text \<open>
  Claim C5. In a range read and in a range write: when the transfer of an iteration
  fails with an error \<open>e\<close>, the request returns \<open>e\<close> if no byte has been moved so
  far, which is the case exactly in the first iteration, and otherwise returns the
  number of bytes moved so far, which is positive, and no error. The lock is released
  either way.
\<close>

theorem range_failure_propagation:
  "(at24_read_after F K B P at24 rbuf off count w k = Some (b, pos, w1) \<longrightarrow>
      pos < count \<longrightarrow> count \<le> length rbuf \<longrightarrow>
      at24_eeprom_read F K B P at24 b pos (ucast (off + of_nat pos)) (count - pos) w1 =
        Some (Inl e, b2, w2) \<longrightarrow>
      at24_read F K B P at24 rbuf off count w =
        Some (if pos = 0 then Inl e else Inr pos, b2, mutex_unlock w2) \<and>
      (pos = 0 \<longleftrightarrow> k = 0)) \<and>
   (at24_write_after F K B P at24 wbuf off count w k = Some (pos', w1') \<longrightarrow>
      pos' < count \<longrightarrow>
      at24_eeprom_write F K B P at24 wbuf pos' (ucast (off + of_nat pos')) 1 w1' =
        Some (Inl e', w2') \<longrightarrow>
      at24_write F K B P at24 wbuf off count w =
        Some (if pos' = 0 then Inl e' else Inr pos', mutex_unlock w2') \<and>
      (pos' = 0 \<longleftrightarrow> k = 0))"
proof (intro conjI impI)
  assume after: "at24_read_after F K B P at24 rbuf off count w k = Some (b, pos, w1)"
    and lt: "pos < count" and len: "count \<le> length rbuf"
    and fail: "at24_eeprom_read F K B P at24 b pos (ucast (off + of_nat pos)) (count - pos) w1 =
        Some (Inl e, b2, w2)"
  note inv = read_after_loop [OF after]
  have "at24_read_loop F K B P at24 b pos (off + of_nat pos) (count - pos) pos w1 =
      Some (if pos = 0 then Inl e else Inr pos, b2, w2)"
    using lt fail by (subst at24_read_loop.simps) simp
  with inv lt len
  show "at24_read F K B P at24 rbuf off count w =
      Some (if pos = 0 then Inl e else Inr pos, b2, mutex_unlock w2)"
    by (simp add: at24_read_def Let_def)
  show "pos = 0 \<longleftrightarrow> k = 0"
  proof
    assume "pos = 0" with inv show "k = 0" by simp
  next
    assume "k = 0" with after show "pos = 0" by simp
  qed
next
  assume after: "at24_write_after F K B P at24 wbuf off count w k = Some (pos', w1')"
    and lt: "pos' < count"
    and fail: "at24_eeprom_write F K B P at24 wbuf pos' (ucast (off + of_nat pos')) 1 w1' =
        Some (Inl e', w2')"
  note inv = write_after_loop [OF after]
  have "at24_write_loop F K B P at24 wbuf pos' (off + of_nat pos') (count - pos') pos' w1' =
      Some (if pos' = 0 then Inl e' else Inr pos', w2')"
    using lt fail by (subst at24_write_loop.simps) simp
  with inv lt
  show "at24_write F K B P at24 wbuf off count w =
      Some (if pos' = 0 then Inl e' else Inr pos', mutex_unlock w2')"
    by (simp add: at24_write_def Let_def)
  show "pos' = 0 \<longleftrightarrow> k = 0"
  proof
    assume "pos' = 0" with inv show "k = 0" by simp
  next
    assume "k = 0" with after show "pos' = 0" by simp
  qed
qed


text \<open>
  A read of 4 bytes from a device that answers two reads and is busy from then on
  returns 2; a write to a device that is busy from the start returns \<open>ETIMEDOUT\<close>.
\<close>

lemma read_after_eval:
  "at24_read_after linux_flag_bits test_kernel eeprom_bus test_params at24_24c128
     [9, 9, 9, 9, 9] 0 4 (fresh_world 4 30) (Suc (Suc 0)) =
   Some ([0xff, 0xff, 0, 0, 9], 2,
     \<lparr>jiffies = 0,
      dev = \<lparr>cells = (\<lambda>a. 0xff), cursor = 2, ready_ops = 0, busy_ops = 30\<rparr>,
      trace =
        [MutexLock, WriteByteData 0x50 0 0, ReadByte 0x50, WriteByteData 0x50 0 1,
         ReadByte 0x50]\<rparr>)"
  by (simp add: read_eval) (simp add: eval_nat_numeral)

lemma read_fail_eval:
  "at24_eeprom_read linux_flag_bits test_kernel eeprom_bus test_params at24_24c128
     [0xff, 0xff, 0, 0, 9] 2 (ucast ((0 :: u64) + of_nat 2)) (4 - 2)
     \<lparr>jiffies = 0,
      dev = \<lparr>cells = (\<lambda>a. 0xff), cursor = 2, ready_ops = 0, busy_ops = 30\<rparr>,
      trace =
        [MutexLock, WriteByteData 0x50 0 0, ReadByte 0x50, WriteByteData 0x50 0 1,
         ReadByte 0x50]\<rparr> =
   Some (Inl ETIMEDOUT, [0xff, 0xff, 0, 0, 9],
     \<lparr>jiffies = 6,
      dev = \<lparr>cells = (\<lambda>a. 0xff), cursor = 2, ready_ops = 0, busy_ops = 24\<rparr>,
      trace =
        [MutexLock, WriteByteData 0x50 0 0, ReadByte 0x50, WriteByteData 0x50 0 1,
         ReadByte 0x50, WriteByteData 0x50 0 2, ReadByte 0x50, Msleep 1,
         WriteByteData 0x50 0 2, ReadByte 0x50, Msleep 1, WriteByteData 0x50 0 2,
         ReadByte 0x50, Msleep 1]\<rparr>)"
  by (simp add: read_eval)

lemma write_fail_eval:
  "at24_eeprom_write linux_flag_bits test_kernel eeprom_bus test_params at24_24c128
     [0x41, 0x42, 0x43] 0 (ucast ((0x1234 :: u64) + of_nat 0)) 1 (mutex_lock (fresh_world 0 30)) =
   Some (Inl ETIMEDOUT,
     \<lparr>jiffies = 6,
      dev = \<lparr>cells = (\<lambda>a. 0xff), cursor = 0, ready_ops = 0, busy_ops = 27\<rparr>,
      trace =
        [MutexLock, WriteWordData 0x50 0x12 0x75, Msleep 1, WriteWordData 0x50 0x12 0x75,
         Msleep 1, WriteWordData 0x50 0x12 0x75, Msleep 1]\<rparr>)"
  by (simp add: write_eval)

lemma write_after_eval:
  "at24_write_after linux_flag_bits test_kernel eeprom_bus test_params at24_24c128
     [0x41, 0x42, 0x43] 0x1234 3 (fresh_world 0 30) 0 = Some (0, mutex_lock (fresh_world 0 30))"
  by simp

theorem range_failure_propagation_witness:
  "at24_read_after linux_flag_bits test_kernel eeprom_bus test_params at24_24c128
     [9, 9, 9, 9, 9] 0 4 (fresh_world 4 30) (Suc (Suc 0)) =
   Some ([0xff, 0xff, 0, 0, 9], 2,
     \<lparr>jiffies = 0,
      dev = \<lparr>cells = (\<lambda>a. 0xff), cursor = 2, ready_ops = 0, busy_ops = 30\<rparr>,
      trace =
        [MutexLock, WriteByteData 0x50 0 0, ReadByte 0x50, WriteByteData 0x50 0 1,
         ReadByte 0x50]\<rparr>) \<and>
   (2 :: nat) < 4 \<and> 4 \<le> length [9, 9, 9, 9, 9 :: u8] \<and>
   map_option fst
     (at24_read linux_flag_bits test_kernel eeprom_bus test_params at24_24c128
        [9, 9, 9, 9, 9] 0 4 (fresh_world 4 30)) = Some (Inr 2) \<and>
   at24_write_after linux_flag_bits test_kernel eeprom_bus test_params at24_24c128
     [0x41, 0x42, 0x43] 0x1234 3 (fresh_world 0 30) 0 = Some (0, mutex_lock (fresh_world 0 30)) \<and>
   (0 :: nat) < 3 \<and>
   map_option fst
     (at24_write linux_flag_bits test_kernel eeprom_bus test_params at24_24c128
        [0x41, 0x42, 0x43] 0x1234 3 (fresh_world 0 30)) = Some (Inl ETIMEDOUT)"
proof -
  have a: "(2 :: nat) < 4" and b: "4 \<le> length [9, 9, 9, 9, 9 :: u8]" and c: "(0 :: nat) < 3"
    by simp_all
  note rd = range_failure_propagation [THEN conjunct1, rule_format,
      OF read_after_eval a b read_fail_eval]
  note wr = range_failure_propagation [THEN conjunct2, rule_format,
      OF write_after_eval c write_fail_eval]
  from rd wr read_after_eval write_after_eval show ?thesis by simp
qed


subsection \<open>Writing and reading back\<close>

text \<open>
  The word that \<^verbatim>\<open>at24_eeprom_write\<close> sends is all the write loop takes from the
  buffer, and the data byte enters it only OR-ed into the low byte of the offset.
\<close>

lemma write_loop_word:
  assumes "pos < length buf" "pos' < length buf'"
    and "(offset AND 0xFF) OR char_promote K (buf ! pos) =
         (offset AND 0xFF) OR char_promote K (buf' ! pos')"
  shows "at24_eeprom_write_loop K B c offset count timeout buf pos w =
         at24_eeprom_write_loop K B c offset count timeout buf' pos' w"
  using assms
proof (induction K B c offset count timeout buf pos w rule: at24_eeprom_write_loop.induct)
  case (1 K B c offset count timeout buf pos w)
  note unfold = at24_eeprom_write_loop.simps [of K B c offset count timeout buf pos w]
    and unfold' = at24_eeprom_write_loop.simps [of K B c offset count timeout buf' pos' w]
  obtain r w1 where wr: "i2c_smbus_write_word_data B c (ucast (drop_bit 8 offset AND 0xff))
      (ucast ((offset AND 0xFF) OR char_promote K (buf ! pos))) w = (r, w1)"
    by (cases "i2c_smbus_write_word_data B c (ucast (drop_bit 8 offset AND 0xff))
      (ucast ((offset AND 0xFF) OR char_promote K (buf ! pos))) w")
  show ?case
  proof (cases r)
    case (Inr u)
    with "1.prems" wr show ?thesis by (simp add: unfold unfold')
  next
    case (Inl e)
    show ?thesis
    proof (cases "time_before (jiffies w) timeout")
      case False
      with "1.prems" wr Inl show ?thesis by (simp add: unfold unfold')
    next
      case True
      from "1.IH" "1.prems" wr Inl True
      have "at24_eeprom_write_loop K B c offset count timeout buf pos (msleep K 1 w1) =
          at24_eeprom_write_loop K B c offset count timeout buf' pos' (msleep K 1 w1)"
        by simp
      with "1.prems" wr Inl True show ?thesis by (simp add: unfold unfold')
    qed
  qed
qed

lemma write_loop_done:
  "at24_write_loop F K B P at24 buf pos off 0 retval w = Some (Inr retval, w)"
  by (simp add: at24_write_loop.simps)

lemma write_loop_single:
  "at24_write_loop F K B P at24 buf 0 off (Suc 0) 0 w =
     (case at24_eeprom_write F K B P at24 buf 0 (ucast off) 1 w of
        None \<Rightarrow> None
      | Some (st, w1) \<Rightarrow> Some (st, w1))"
  by (subst at24_write_loop.simps)
     (auto simp: write_loop_done split: option.splits sum.splits)

lemma write_one_and_zero:
  "at24_bin_write F K B P at24 [0x01] 1 1 w = at24_bin_write F K B P at24 [0x00] 1 1 w"
proof -
  have promote: "char_promote K 1 = 1" "char_promote K 0 = 0"
    by (simp_all add: char_promote_def)
  have tr: "snd (at24_translate_offset F at24 1) = 1"
    by (simp add: at24_translate_offset_def)
  have eng: "at24_eeprom_write F K B P at24 [0x01] 0 1 (Suc 0) w' =
      at24_eeprom_write F K B P at24 [0x00] 0 1 (Suc 0) w'" for w'
    using tr
    by (auto simp: at24_eeprom_write_def Let_def promote split: prod.splits option.splits
        intro!: write_loop_word)
  show ?thesis
    by (simp add: at24_bin_write_def at24_write_def write_loop_single eng)
qed

text \<open>
  Claim C1 says that a range write followed by a range read at the same offset returns
  the bytes written. The code does not do that. On any bus and any device instance,
  writing the byte 0x01 and writing the byte 0x00 at offset 1 are the same request: both
  send the word 0x0001, so no device can return both bytes. On the reference 24c128, all
  cells 0xff, the write of 0x41 at offset 0 sends the word 0x0041, which stores 0x00
  at address 0x0041, and returns 1; the read at offset 0 then returns 0xff.
\<close>

theorem write_then_read_differs:
  "(\<forall>F K (B :: 'd i2c_bus) P at24 w.
      at24_bin_write F K B P at24 [0x01] 1 1 w = at24_bin_write F K B P at24 [0x00] 1 1 w) \<and>
   at24_bin_write linux_flag_bits test_kernel eeprom_bus test_params at24_24c128 [0x41] 0 1
     (fresh_world 0 0) =
   Some (Inr 1,
     \<lparr>jiffies = 0,
      dev = \<lparr>cells = (\<lambda>a. 0xff)(0x41 := 0), cursor = 0x42, ready_ops = 0, busy_ops = 0\<rparr>,
      trace = [MutexLock, WriteWordData 0x50 0 0x41, MutexUnlock]\<rparr>) \<and>
   at24_bin_read linux_flag_bits test_kernel eeprom_bus test_params at24_24c128 [0] 0 1
     \<lparr>jiffies = 0,
      dev = \<lparr>cells = (\<lambda>a. 0xff)(0x41 := 0), cursor = 0x42, ready_ops = 0, busy_ops = 0\<rparr>,
      trace = [MutexLock, WriteWordData 0x50 0 0x41, MutexUnlock]\<rparr> =
   Some (Inr 1, [0xff],
     \<lparr>jiffies = 0,
      dev = \<lparr>cells = (\<lambda>a. 0xff)(0x41 := 0), cursor = 1, ready_ops = 0, busy_ops = 0\<rparr>,
      trace =
        [MutexLock, WriteWordData 0x50 0 0x41, MutexUnlock, MutexLock, WriteByteData 0x50 0 0,
         ReadByte 0x50, MutexUnlock]\<rparr>)"
proof (intro conjI allI)
  fix F K and B :: "'d i2c_bus" and P at24 w
  show "at24_bin_write F K B P at24 [0x01] 1 1 w = at24_bin_write F K B P at24 [0x00] 1 1 w"
    by (rule write_one_and_zero)
next
  show "at24_bin_write linux_flag_bits test_kernel eeprom_bus test_params at24_24c128 [0x41] 0 1
     (fresh_world 0 0) =
   Some (Inr 1,
     \<lparr>jiffies = 0,
      dev = \<lparr>cells = (\<lambda>a. 0xff)(0x41 := 0), cursor = 0x42, ready_ops = 0, busy_ops = 0\<rparr>,
      trace = [MutexLock, WriteWordData 0x50 0 0x41, MutexUnlock]\<rparr>)"
    by (simp add: write_eval)
next
  show "at24_bin_read linux_flag_bits test_kernel eeprom_bus test_params at24_24c128 [0] 0 1
     \<lparr>jiffies = 0,
      dev = \<lparr>cells = (\<lambda>a. 0xff)(0x41 := 0), cursor = 0x42, ready_ops = 0, busy_ops = 0\<rparr>,
      trace = [MutexLock, WriteWordData 0x50 0 0x41, MutexUnlock]\<rparr> =
   Some (Inr 1, [0xff],
     \<lparr>jiffies = 0,
      dev = \<lparr>cells = (\<lambda>a. 0xff)(0x41 := 0), cursor = 1, ready_ops = 0, busy_ops = 0\<rparr>,
      trace =
        [MutexLock, WriteWordData 0x50 0 0x41, MutexUnlock, MutexLock, WriteByteData 0x50 0 0,
         ReadByte 0x50, MutexUnlock]\<rparr>)"
    by (simp add: at24_bin_read_def read_eval)
qed

subsection \<open>A failed address write in a read\<close>

text \<open>
  Claim C2 says that a single-byte read returns its byte only when both the address
  write and the byte read succeed, and sleeps and retries when either fails. The code
  tests only the byte read. On the reference 24c128 whose cells hold the low byte of
  their address and whose address pointer is 0, a read at offset 5 whose address write
  is rejected returns 1 with the byte 0 of cell 0, without a sleep or a second try;
  when the address write is accepted it returns the byte 5.
\<close>

theorem read_accepts_failed_address_write:
  "fst (i2c_smbus_write_byte_data eeprom_bus 0x50 0 5 (indexed_world 0 1)) = Inl ENXIO \<and>
   at24_eeprom_read linux_flag_bits test_kernel eeprom_bus test_params at24_24c128 [0xaa] 0 5 1
     (indexed_world 0 1) =
   Some (Inr 1, [0],
     \<lparr>jiffies = 0, dev = \<lparr>cells = ucast, cursor = 1, ready_ops = 0, busy_ops = 0\<rparr>,
      trace = [WriteByteData 0x50 0 5, ReadByte 0x50]\<rparr>) \<and>
   at24_eeprom_read linux_flag_bits test_kernel eeprom_bus test_params at24_24c128 [0xaa] 0 5 1
     (indexed_world 0 0) =
   Some (Inr 1, [5],
     \<lparr>jiffies = 0, dev = \<lparr>cells = ucast, cursor = 6, ready_ops = 0, busy_ops = 0\<rparr>,
      trace = [WriteByteData 0x50 0 5, ReadByte 0x50]\<rparr>)"
proof (intro conjI)
  show "fst (i2c_smbus_write_byte_data eeprom_bus 0x50 0 5 (indexed_world 0 1)) = Inl ENXIO"
    by (simp add: i2c_smbus_write_byte_data_def eeprom_bus_def eeprom_ready_def
        indexed_world_def)
next
  show "at24_eeprom_read linux_flag_bits test_kernel eeprom_bus test_params at24_24c128 [0xaa] 0
      5 1 (indexed_world 0 1) =
    Some (Inr 1, [0],
      \<lparr>jiffies = 0, dev = \<lparr>cells = ucast, cursor = 1, ready_ops = 0, busy_ops = 0\<rparr>,
       trace = [WriteByteData 0x50 0 5, ReadByte 0x50]\<rparr>)"
    by (simp add: read_eval indexed_world_def)
next
  show "at24_eeprom_read linux_flag_bits test_kernel eeprom_bus test_params at24_24c128 [0xaa] 0
      5 1 (indexed_world 0 0) =
    Some (Inr 1, [5],
      \<lparr>jiffies = 0, dev = \<lparr>cells = ucast, cursor = 6, ready_ops = 0, busy_ops = 0\<rparr>,
       trace = [WriteByteData 0x50 0 5, ReadByte 0x50]\<rparr>)"
    by (simp add: read_eval indexed_world_def)
qed


end
